theory Spec2Isabelle
  imports Complex_Main "HOL-Library.Multiset" "HOL-Library.AList"
begin

section \<open>Machine arithmetic of the Go source\<close>

text \<open>
  \<open>int\<close>, \<open>int64\<close> and \<open>time.Duration\<close> (nanoseconds) are 64-bit signed integers. They are
  modelled as \<open>int\<close>; additions that the source performs on accumulators wrap around
  through \<open>wrap64\<close>. Go's \<open>/\<close> and \<open>%\<close> on integers truncate toward zero, and panic on a
  zero divisor: every division of the model sits under the guard the source has (or
  returns the panic).
\<close>

definition wrap64 :: "int \<Rightarrow> int" where
  "wrap64 x = (x + 2 ^ 63) mod 2 ^ 64 - 2 ^ 63"

definition go_div :: "int \<Rightarrow> int \<Rightarrow> int" where
  "go_div a b = (if (a < 0) = (b < 0) then \<bar>a\<bar> div \<bar>b\<bar> else - (\<bar>a\<bar> div \<bar>b\<bar>))"

definition go_mod :: "int \<Rightarrow> int \<Rightarrow> int" where
  "go_mod a b = a - b * go_div a b"

text \<open>
  \<open>float64\<close> arithmetic is not interpreted: the operations the source uses are the fields
  of a record the model takes as a parameter, so that every theorem holds for IEEE 754
  binary64 as for any other implementation. \<open>of_int64\<close> is the conversion
  \<open>float64(x)\<close> (also used for the constants \<open>0\<close>, \<open>6.0\<close>, \<open>100\<close> and \<open>1e9\<close>, which are
  integers that binary64 represents exactly), \<open>to_int64\<close> the conversion
  \<open>time.Duration(f)\<close>, \<open>flt\<close> the comparison \<open><\<close>.
\<close>

record 'f float64_ops =
  of_int64 :: "int \<Rightarrow> 'f"
  fadd :: "'f \<Rightarrow> 'f \<Rightarrow> 'f"
  fmul :: "'f \<Rightarrow> 'f \<Rightarrow> 'f"
  fdiv :: "'f \<Rightarrow> 'f \<Rightarrow> 'f"
  fsqrt :: "'f \<Rightarrow> 'f"
  flt :: "'f \<Rightarrow> 'f \<Rightarrow> bool"
  to_int64 :: "'f \<Rightarrow> int"

text \<open>
  An instance over the reals, for evaluating the model on inputs where every float
  operation is exact (small integers, no division by zero).
\<close>

definition real_ops :: "real float64_ops" where
  "real_ops = \<lparr>of_int64 = real_of_int, fadd = (+), fmul = (*), fdiv = (/), fsqrt = sqrt,
     flt = (<), to_int64 = (\<lambda>x. if 0 \<le> x then \<lfloor>x\<rfloor> else \<lceil>x\<rceil>)\<rparr>"

text \<open>\<open>func (d Duration) Seconds() float64\<close> of package \<open>time\<close>.\<close>

definition Seconds :: "'f float64_ops \<Rightarrow> int \<Rightarrow> 'f" where
  "Seconds ops d =
     fadd ops (of_int64 ops (go_div d 1000000000))
       (fdiv ops (of_int64 ops (go_mod d 1000000000)) (of_int64 ops 1000000000))"

section \<open>Data model\<close>

text \<open>A value of Go's \<open>any\<close> as YAML decoding produces it.\<close>

datatype any = AString string | AInt int | AMap "(string \<times> any) list" | ANil

text \<open>
  \<open>map[string]any\<close>: an association list read with \<open>map_of\<close> and written with
  \<open>AList.update\<close>.
\<close>

type_synonym config = "(string \<times> any) list"

text \<open>
  The adapter types of \<open>constant.AdapterType\<close> that the source names; every other
  adapter type of the proxy library is \<open>OtherType\<close> with its name.
\<close>

datatype AdapterType =
    Shadowsocks | ShadowsocksR | Snell | Socks5 | Http | Vmess | Vless | Trojan
  | Hysteria | Hysteria2 | WireGuard | Tuic | Ssh | Mieru | AnyTLS
  | OtherType string

fun type_String :: "AdapterType \<Rightarrow> string" where
  "type_String Shadowsocks = ''Shadowsocks''"
| "type_String ShadowsocksR = ''ShadowsocksR''"
| "type_String Snell = ''Snell''"
| "type_String Socks5 = ''Socks5''"
| "type_String Http = ''Http''"
| "type_String Vmess = ''Vmess''"
| "type_String Vless = ''Vless''"
| "type_String Trojan = ''Trojan''"
| "type_String Hysteria = ''Hysteria''"
| "type_String Hysteria2 = ''Hysteria2''"
| "type_String WireGuard = ''WireGuard''"
| "type_String Tuic = ''Tuic''"
| "type_String Ssh = ''Ssh''"
| "type_String Mieru = ''Mieru''"
| "type_String AnyTLS = ''AnyTLS''"
| "type_String (OtherType s) = s"

text \<open>
  A \<open>constant.Proxy\<close> of the proxy library, as far as the source reads it: what its
  methods \<open>Name()\<close> and \<open>Type()\<close> return. \<open>CProxy\<close> embeds it and adds \<open>Config\<close>.
\<close>

record Proxy =
  Name :: string
  Type :: AdapterType

record CProxy = Proxy +
  Config :: config

record 'f Config =
  ConfigPaths :: string
  FilterRegex :: string
  BlockRegex :: string
  ServerURL :: string
  DownloadSize :: int
  UploadSize :: int
  Timeout :: int
  Concurrent :: int
  MaxLatency :: int
  MinDownloadSpeed :: 'f
  MinUploadSpeed :: 'f
  FastMode :: bool

record 'f SpeedTester =
  config :: "'f Config"
  blockedNodes :: "string list"
  blockedNodeCount :: int

definition New :: "'f Config \<Rightarrow> 'f SpeedTester" where
  "New cfg =
     (let c1 = (if Concurrent cfg \<le> 0 then cfg\<lparr>Concurrent := 1\<rparr> else cfg);
          c2 = (if Config.DownloadSize c1 < 0
                then c1\<lparr>Config.DownloadSize := 100 * 1024 * 1024\<rparr> else c1);
          c3 = (if Config.UploadSize c2 < 0
                then c2\<lparr>Config.UploadSize := 10 * 1024 * 1024\<rparr> else c2)
      in \<lparr>config = c3, blockedNodes = [], blockedNodeCount = 0\<rparr>)"

record 'f Result =
  ProxyName :: string
  ProxyType :: string
  ProxyConfig :: config
  Latency :: int
  Jitter :: int
  PacketLoss :: 'f
  DownloadSize :: 'f
  DownloadTime :: int
  DownloadSpeed :: 'f
  UploadSize :: 'f
  UploadTime :: int
  UploadSpeed :: 'f

record downloadResult =
  bytes :: int
  duration :: int

section \<open>The speed test engine\<close>

text \<open>
  A panic of the Go runtime ends the call without a return value; the model returns it
  as the left injection. The panics are those of the operations the source performs:
  an integer division by zero, \<open>make\<close> of a channel with a negative size, a type
  assertion without the \<open>ok\<close> result on a value of another type, and
  \<open>regexp.MustCompile\<close> on a pattern that does not compile. The memory a channel or a
  goroutine needs is not modelled.
\<close>

datatype panic = DivideByZero | MakeChanSizeOutOfRange | InterfaceConversion | RegexpMustCompile

text \<open>
  What the network answers to one HTTP request made through the proxy: an error of
  \<open>client.Get\<close> or \<open>client.Post\<close>, or a response with its status code, the number of
  bytes the transfer counted (\<open>io.Copy\<close>'s count for a download, \<open>WrittenBytes()\<close> for
  an upload) and the time \<open>time.Since(start)\<close> reads afterwards.
\<close>

datatype http_reply = RequestError | Response int int int

text \<open>
  The environment of one \<open>testProxy\<close> call: the reply to the probe, and the replies to
  the chunk requests of a stage, by chunk size and by the position at which the
  sub-task's result is received from the channel.
\<close>

record network =
  probe :: http_reply
  download :: "int \<Rightarrow> nat \<Rightarrow> http_reply"
  upload :: "int \<Rightarrow> nat \<Rightarrow> http_reply"

text \<open>The requests a call has made, in stage order.\<close>

datatype request = ProbeGet | DownloadGet int | UploadPost int

definition testDownload :: "network \<Rightarrow> int \<Rightarrow> nat \<Rightarrow> downloadResult option" where
  "testDownload net sz i =
     (case download net sz i of
        RequestError \<Rightarrow> None
      | Response status n d \<Rightarrow>
          if status \<noteq> 200 then None else Some \<lparr>bytes = n, duration = d\<rparr>)"

definition testUpload :: "network \<Rightarrow> int \<Rightarrow> nat \<Rightarrow> downloadResult option" where
  "testUpload net sz i =
     (case upload net sz i of
        RequestError \<Rightarrow> None
      | Response status n d \<Rightarrow>
          if status \<noteq> 200 then None else Some \<lparr>bytes = n, duration = d\<rparr>)"

text \<open>
  The loop that receives the sub-tasks' results from the channel: the accumulator is
  (total bytes, total time, count); a nil result leaves it unchanged.
\<close>

fun receive :: "downloadResult option list \<Rightarrow> int \<times> int \<times> int \<Rightarrow> int \<times> int \<times> int" where
  "receive [] acc = acc"
| "receive (None # rs) acc = receive rs acc"
| "receive (Some dr # rs) (totalBytes, totalTime, n) =
     receive rs (wrap64 (totalBytes + bytes dr), wrap64 (totalTime + duration dr), n + 1)"

text \<open>
  What the channel \<open>downloadResults\<close> (\<open>uploadResults\<close>) holds once \<open>wg.Wait()\<close> returns:
  one result per sub-task, \<open>Concurrent\<close> of them, in the order they are received.
\<close>

definition downloadResults :: "'f Config \<Rightarrow> network \<Rightarrow> int \<Rightarrow> downloadResult option list" where
  "downloadResults cfg net downloadChunkSize =
     map (testDownload net downloadChunkSize) [0..<nat (Concurrent cfg)]"

definition uploadResults :: "'f Config \<Rightarrow> network \<Rightarrow> int \<Rightarrow> downloadResult option list" where
  "uploadResults cfg net uploadChunkSize =
     map (testUpload net uploadChunkSize) [0..<nat (Concurrent cfg)]"

definition downloadStage ::
  "'f float64_ops \<Rightarrow> 'f Config \<Rightarrow> network \<Rightarrow> int \<Rightarrow> 'f Result \<Rightarrow> 'f Result" where
  "downloadStage ops cfg net downloadChunkSize result =
     (case receive (downloadResults cfg net downloadChunkSize) (0, 0, 0) of
        (totalDownloadBytes, totalDownloadTime, downloadCount) \<Rightarrow>
          if downloadCount > 0
          then result\<lparr>DownloadSize := of_int64 ops totalDownloadBytes,
                      DownloadTime := go_div totalDownloadTime downloadCount,
                      DownloadSpeed := fdiv ops (of_int64 ops totalDownloadBytes)
                                         (Seconds ops (go_div totalDownloadTime downloadCount))\<rparr>
          else result)"

definition uploadStage ::
  "'f float64_ops \<Rightarrow> 'f Config \<Rightarrow> network \<Rightarrow> int \<Rightarrow> 'f Result \<Rightarrow> 'f Result" where
  "uploadStage ops cfg net uploadChunkSize result =
     (case receive (uploadResults cfg net uploadChunkSize) (0, 0, 0) of
        (totalUploadBytes, totalUploadTime, uploadCount) \<Rightarrow>
          if uploadCount > 0
          then result\<lparr>UploadSize := of_int64 ops totalUploadBytes,
                      UploadTime := go_div totalUploadTime uploadCount,
                      UploadSpeed := fdiv ops (of_int64 ops totalUploadBytes)
                                       (Seconds ops (go_div totalUploadTime uploadCount))\<rparr>
          else result)"

text \<open>
  \<open>testProxy\<close> from the upload stage on (source lines 544 to 574); \<open>trace\<close> holds the
  requests made so far.
\<close>

definition testProxy_upload ::
  "'f float64_ops \<Rightarrow> 'f Config \<Rightarrow> network \<Rightarrow> 'f Result \<Rightarrow> request list
     \<Rightarrow> panic + ('f Result \<times> request list)" where
  "testProxy_upload ops cfg net result trace =
     (if Concurrent cfg = 0 then Inl DivideByZero
      else let uploadChunkSize = go_div (Config.UploadSize cfg) (Concurrent cfg) in
        if uploadChunkSize > 0
        then (if Concurrent cfg < 0 then Inl MakeChanSizeOutOfRange
              else Inr (uploadStage ops cfg net uploadChunkSize result,
                        trace @ replicate (nat (Concurrent cfg)) (UploadPost uploadChunkSize)))
        else Inr (result, trace))"

text \<open>\<open>testProxy\<close> from the download stage on (source lines 504 to 575).\<close>

definition testProxy_download ::
  "'f float64_ops \<Rightarrow> 'f Config \<Rightarrow> network \<Rightarrow> 'f Result \<Rightarrow> request list
     \<Rightarrow> panic + ('f Result \<times> request list)" where
  "testProxy_download ops cfg net result trace =
     (if Concurrent cfg = 0 then Inl DivideByZero
      else let downloadChunkSize = go_div (Config.DownloadSize cfg) (Concurrent cfg) in
        if downloadChunkSize > 0
        then (if Concurrent cfg < 0 then Inl MakeChanSizeOutOfRange
              else let result' = downloadStage ops cfg net downloadChunkSize result;
                       trace' = trace @ replicate (nat (Concurrent cfg)) (DownloadGet downloadChunkSize)
                   in if flt ops (DownloadSpeed result') (MinDownloadSpeed cfg)
                      then Inr (result', trace')
                      else testProxy_upload ops cfg net result' trace')
        else testProxy_upload ops cfg net result trace)"

text \<open>
  The composite literal \<open>&Result{ProxyName: name, ProxyType: ..., ProxyConfig: ...}\<close>:
  every other field has its zero value.
\<close>

definition newResult :: "'f float64_ops \<Rightarrow> string \<Rightarrow> CProxy \<Rightarrow> 'f Result" where
  "newResult ops name proxy =
     \<lparr>ProxyName = name, ProxyType = type_String (Type proxy), ProxyConfig = Config proxy,
      Latency = 0, Jitter = 0, PacketLoss = of_int64 ops 0,
      DownloadSize = of_int64 ops 0, DownloadTime = 0, DownloadSpeed = of_int64 ops 0,
      UploadSize = of_int64 ops 0, UploadTime = 0, UploadSpeed = of_int64 ops 0\<rparr>"

definition testProxy ::
  "'f float64_ops \<Rightarrow> 'f SpeedTester \<Rightarrow> network \<Rightarrow> string \<Rightarrow> CProxy
     \<Rightarrow> panic + ('f Result \<times> request list)" where
  "testProxy ops st net name proxy =
     (let result = newResult ops name proxy
      in case probe net of
           RequestError \<Rightarrow> Inr (result, [ProbeGet])
         | Response status n elapsed \<Rightarrow>
             if status \<noteq> 200 then Inr (result, [ProbeGet])
             else let result = result\<lparr>Latency := elapsed\<rparr> in
               if FastMode (config st) then Inr (result, [ProbeGet])
               else if Latency result > MaxLatency (config st) then Inr (result, [ProbeGet])
               else testProxy_download ops (config st) net result [ProbeGet])"

text \<open>The results of the sub-tasks that succeeded (the non-nil ones), in order.\<close>

fun successes :: "downloadResult option list \<Rightarrow> downloadResult list" where
  "successes [] = []"
| "successes (None # rs) = successes rs"
| "successes (Some dr # rs) = dr # successes rs"

section \<open>Latency statistics\<close>

record 'f latencyResult =
  avgLatency :: int
  jitter :: int
  packetLoss :: 'f

definition calculateLatencyStats :: "'f float64_ops \<Rightarrow> int list \<Rightarrow> int \<Rightarrow> 'f latencyResult" where
  "calculateLatencyStats ops latencies failedPings =
     (let result = \<lparr>avgLatency = 0, jitter = 0,
                     packetLoss = fmul ops (fdiv ops (of_int64 ops failedPings) (of_int64 ops 6))
                                    (of_int64 ops 100)\<rparr>
      in if length latencies = 0 then result
         else
           let total = fold (\<lambda>l total. wrap64 (total + l)) latencies 0;
               avg = go_div total (int (length latencies));
               variance = fold (\<lambda>l variance.
                                  let diff = of_int64 ops (wrap64 (l - avg))
                                  in fadd ops variance (fmul ops diff diff))
                               latencies (of_int64 ops 0);
               variance' = fdiv ops variance (of_int64 ops (int (length latencies)))
           in result\<lparr>avgLatency := avg, jitter := to_int64 ops (fsqrt ops variance')\<rparr>)"

text \<open>
  The float64 sum of a list, accumulated from zero in list order, as the source's loop
  does.
\<close>

definition fsum :: "'f float64_ops \<Rightarrow> 'f list \<Rightarrow> 'f" where
  "fsum ops xs = fold (\<lambda>x acc. fadd ops acc x) xs (of_int64 ops 0)"


section \<open>The proxy registry\<close>

subsection \<open>Strings\<close>

text \<open>
  \<open>strings.Split(s, sep)\<close> for a separator of one byte, \<open>strings.HasPrefix\<close> and
  \<open>strings.Contains\<close>, on byte strings.
\<close>

fun Split :: "string \<Rightarrow> char \<Rightarrow> string list" where
  "Split [] sep = [[]]"
| "Split (c # cs) sep =
     (if c = sep then [] # Split cs sep
      else (case Split cs sep of [] \<Rightarrow> [[c]] | part # parts \<Rightarrow> (c # part) # parts))"

definition HasPrefix :: "string \<Rightarrow> string \<Rightarrow> bool" where
  "HasPrefix s pre = (take (length pre) s = pre)"

fun Contains :: "string \<Rightarrow> string \<Rightarrow> bool" where
  "Contains [] substr = (substr = [])"
| "Contains (c # cs) substr = (HasPrefix (c # cs) substr \<or> Contains cs substr)"

text \<open>The verb \<open>%d\<close> of \<open>fmt.Sprintf\<close> for a counter that starts at 1 and is incremented.\<close>

definition digit :: "nat \<Rightarrow> char" where
  "digit d = char_of (48 + d)"

function itoa :: "nat \<Rightarrow> string" where
  "itoa n = (if n < 10 then [digit n] else itoa (n div 10) @ [digit (n mod 10)])"
  by pat_completeness auto
termination
  by (relation "measure id") auto

text \<open>Reading a decimal numeral back; used to show that \<open>itoa\<close> is injective.\<close>

definition atoi :: "string \<Rightarrow> nat" where
  "atoi s = foldl (\<lambda>a c. 10 * a + (of_char c - 48)) 0 s"

text \<open>
  \<open>fmt.Sprintf("%s-\<dots>%d", name, counter)\<close>: the suffix is a hyphen and the UTF-8 bytes
  of the two characters U+91CD and U+540D.
\<close>

definition rename_suffix :: string where
  "rename_suffix = [CHR 0x2D, CHR 0xE9, CHR 0x87, CHR 0x8D, CHR 0xE5, CHR 0x90, CHR 0x8D]"

definition renamed :: "string \<Rightarrow> nat \<Rightarrow> string" where
  "renamed name counter = name @ rename_suffix @ itoa counter"

lemma of_char_digit: "d < 10 \<Longrightarrow> of_char (digit d) = 48 + d"
  by (simp add: digit_def)

lemma atoi_snoc: "atoi (s @ [c]) = 10 * atoi s + (of_char c - 48)"
  by (simp add: atoi_def)

lemma atoi_itoa: "atoi (itoa n) = n"
proof (induction n rule: itoa.induct)
  case (1 n)
  show ?case
  proof (cases "n < 10")
    case True
    then show ?thesis by (simp add: atoi_def of_char_digit)
  next
    case False
    then have "atoi (itoa n) = 10 * atoi (itoa (n div 10)) + (of_char (digit (n mod 10)) - 48)"
      by (subst itoa.simps) (simp add: atoi_snoc)
    also have "\<dots> = 10 * (n div 10) + n mod 10"
      using 1 False by (simp add: of_char_digit)
    finally show ?thesis by simp
  qed
qed

lemma itoa_inj: "itoa m = itoa n \<Longrightarrow> m = n"
  by (metis atoi_itoa)

lemma renamed_inj: "renamed name m = renamed name n \<Longrightarrow> m = n"
  by (simp add: renamed_def itoa_inj)

lemma finite_taken: "finite {k. renamed name k \<in> set keys}"
proof -
  have "inj (renamed name)" by (rule injI) (rule renamed_inj)
  then have "finite (renamed name -` set keys)" by (simp add: finite_vimageI)
  then show ?thesis by (simp add: vimage_def)
qed

subsection \<open>Maps and the renaming loop\<close>

text \<open>
  A Go map with string keys is an association list with distinct keys: \<open>map_of\<close> reads
  it, \<open>AList.update\<close> is the assignment \<open>m[k] = v\<close>.
\<close>

type_synonym 'v gomap = "(string \<times> 'v) list"

text \<open>
  The loop \<open>for { newName := Sprintf(...); if !exist { break }; counter++ }\<close> over the
  keys of the map: it ends because the map is finite and the candidate names differ.
\<close>

function findName :: "string list \<Rightarrow> string \<Rightarrow> nat \<Rightarrow> string" where
  "findName keys name counter =
     (let newName = renamed name counter
      in if newName \<in> set keys then findName keys name (counter + 1) else newName)"
  by pat_completeness auto
termination
proof (relation "measure (\<lambda>(keys, name, counter). card {k. counter \<le> k \<and> renamed name k \<in> set keys})")
  show "wf (measure (\<lambda>(keys, name, counter). card {k. counter \<le> k \<and> renamed name k \<in> set keys}))"
    by simp
next
  fix keys :: "string list" and name :: string and counter :: nat and x :: string
  assume x: "x = renamed name counter" and mem: "x \<in> set keys"
  let ?A = "{k. counter \<le> k \<and> renamed name k \<in> set keys}"
  let ?B = "{k. counter + 1 \<le> k \<and> renamed name k \<in> set keys}"
  have fin: "finite ?A" using finite_taken [of name keys] by simp
  have "counter \<in> ?A" "counter \<notin> ?B" using x mem by auto
  moreover have "?B \<subseteq> ?A" by auto
  ultimately have "?B \<subset> ?A" by blast
  then have "card ?B < card ?A" using fin by (rule psubset_card_mono [rotated])
  then show "((keys, name, counter + 1), (keys, name, counter))
      \<in> measure (\<lambda>(keys, name, counter). card {k. counter \<le> k \<and> renamed name k \<in> set keys})"
    by simp
qed

declare findName.simps [simp del]

declare itoa.simps [simp del]

text \<open>
  The name under which a candidate is stored: its own when the map has no such key,
  else the first of \<open>name-..1\<close>, \<open>name-..2\<close>, ... that the map does not have.
\<close>

definition uniqueName :: "'v gomap \<Rightarrow> string \<Rightarrow> string" where
  "uniqueName m name =
     (if name \<in> set (map fst m) then findName (map fst m) name 1 else name)"

text \<open>
  \<open>for k, v := range m\<close> visits every entry once, in an order the runtime chooses. The
  order is a sequence of choices: each choice picks one of the entries not yet visited.
\<close>

fun permute :: "nat list \<Rightarrow> 'a list \<Rightarrow> 'a list" where
  "permute cs [] = []"
| "permute [] xs = xs"
| "permute (c # cs) xs =
     (let i = c mod length xs in xs ! i # permute cs (take i xs @ drop (Suc i) xs))"

subsection \<open>The environment of a load\<close>

text \<open>The body of an \<open>http.Get\<close> response read by \<open>io.ReadAll\<close>, or the error of either.\<close>

datatype fetched = GetError | ReadError | Body string

record RawConfig =
  Providers :: "config gomap"
  Proxies :: "config list"

text \<open>
  A provider of the proxy library after \<open>ParseProxyProvider\<close>: whether \<open>Initial()\<close>
  succeeds, and what \<open>Proxies()\<close> returns then.
\<close>

record ProxyProvider =
  InitialOk :: bool
  Proxies :: "Proxy list"

text \<open>
  What the source calls outside the repository: the network, the file system, the YAML
  decoder, the proxy library, \<open>net.ParseIP\<close> followed by \<open>To4\<close> and \<open>String\<close> (\<open>None\<close>
  when either is nil), \<open>regexp.Compile\<close> (\<open>None\<close> where \<open>MustCompile\<close> panics, else the
  compiled pattern's \<open>MatchString\<close>), \<open>strings.TrimSpace\<close>, \<open>strings.ToLower\<close>, and the
  order in which the runtime iterates over a map with the given keys. Within one load
  each of them is a function of its arguments.
\<close>

record world =
  http_Get :: "string \<Rightarrow> fetched"
  os_ReadFile :: "string \<Rightarrow> string option"
  yaml_Unmarshal :: "string \<Rightarrow> RawConfig option"
  adapter_ParseProxy :: "config \<Rightarrow> Proxy option"
  provider_ParseProxyProvider :: "string \<Rightarrow> config \<Rightarrow> ProxyProvider option"
  provider_ReservedName :: string
  net_ParseIP_To4 :: "string \<Rightarrow> string option"
  regexp_Compile :: "string \<Rightarrow> (string \<Rightarrow> bool) option"
  strings_TrimSpace :: "string \<Rightarrow> string"
  strings_ToLower :: "string \<Rightarrow> string"
  range_order :: "string list \<Rightarrow> nat list"

definition range_map :: "world \<Rightarrow> 'v gomap \<Rightarrow> (string \<times> 'v) list" where
  "range_map w m = permute (range_order w (map fst m)) m"

definition convertMappedIPv6ToIPv4 :: "world \<Rightarrow> string \<Rightarrow> string" where
  "convertMappedIPv6ToIPv4 w server =
     (case net_ParseIP_To4 w server of None \<Rightarrow> server | Some ipv4 \<Rightarrow> ipv4)"

subsection \<open>The compatibility check\<close>

text \<open>
  \<open>if v, ok := proxy.Config[key]; ok { switch v { case ...: default: return false } }\<close>:
  an absent parameter passes, a present one must be one of the listed strings.
\<close>

fun listed :: "any option \<Rightarrow> string list \<Rightarrow> bool" where
  "listed None allowed = True"
| "listed (Some v) allowed = (v \<in> set (map AString allowed))"

definition isStashCompatible :: "CProxy \<Rightarrow> bool" where
  "isStashCompatible proxy =
     (case Type proxy of
        Shadowsocks \<Rightarrow>
          listed (map_of (Config proxy) ''cipher'')
            [''aes-128-gcm'', ''aes-192-gcm'', ''aes-256-gcm'',
             ''aes-128-cfb'', ''aes-192-cfb'', ''aes-256-cfb'',
             ''aes-128-ctr'', ''aes-192-ctr'', ''aes-256-ctr'',
             ''rc4-md5'', ''chacha20'', ''chacha20-ietf'', ''xchacha20'',
             ''chacha20-ietf-poly1305'', ''xchacha20-ietf-poly1305'',
             ''2022-blake3-aes-128-gcm'', ''2022-blake3-aes-256-gcm'']
      | ShadowsocksR \<Rightarrow>
          listed (map_of (Config proxy) ''obfs'')
            [''plain'', ''http_simple'', ''http_post'', ''random_head'',
             ''tls1.2_ticket_auth'', ''tls1.2_ticket_fastauth''] \<and>
          listed (map_of (Config proxy) ''protocol'')
            [''origin'', ''auth_sha1_v4'', ''auth_aes128_md5'',
             ''auth_aes128_sha1'', ''auth_chain_a'', ''auth_chain_b'']
      | Snell \<Rightarrow>
          (case map_of (Config proxy) ''obfs-opts'' of
             Some (AMap obfsOptsMap) \<Rightarrow> listed (map_of obfsOptsMap ''mode'') [''http'', ''tls'']
           | _ \<Rightarrow> True)
      | Socks5 \<Rightarrow> True
      | Http \<Rightarrow> True
      | Vmess \<Rightarrow>
          listed (map_of (Config proxy) ''cipher'')
            [''auto'', ''aes-128-gcm'', ''chacha20-poly1305'', ''none''] \<and>
          listed (map_of (Config proxy) ''network'') [''ws'', ''h2'', ''http'', ''grpc'']
      | Vless \<Rightarrow>
          listed (map_of (Config proxy) ''flow'')
            [''xtls-rprx-origin'', ''xtls-rprx-direct'', ''xtls-rprx-splice'', ''xtls-rprx-vision'']
      | Trojan \<Rightarrow> listed (map_of (Config proxy) ''network'') [''ws'', ''grpc'']
      | Hysteria \<Rightarrow> True
      | Hysteria2 \<Rightarrow> True
      | WireGuard \<Rightarrow> True
      | Tuic \<Rightarrow> True
      | Ssh \<Rightarrow> True
      | _ \<Rightarrow> False)"

subsection \<open>Loading one configuration source\<close>

definition newCProxy :: "Proxy \<Rightarrow> config \<Rightarrow> CProxy" where
  "newCProxy proxy cfg = \<lparr>Name = Name proxy, Type = Type proxy, Config = cfg\<rparr>"

text \<open>The proxies the source declares directly (source lines 119 to 142).\<close>

fun loadDirect :: "world \<Rightarrow> config list \<Rightarrow> CProxy gomap \<Rightarrow> CProxy gomap" where
  "loadDirect w [] proxies = proxies"
| "loadDirect w (cfg # proxiesConfig) proxies =
     (case adapter_ParseProxy w cfg of
        None \<Rightarrow> loadDirect w proxiesConfig proxies
      | Some proxy \<Rightarrow>
          loadDirect w proxiesConfig
            (AList.update (uniqueName proxies (Name proxy)) (newCProxy proxy cfg) proxies))"

text \<open>The map from proxy name to configuration of a provider's document (lines 190 to 196).\<close>

fun pdProxiesOf :: "config list \<Rightarrow> config gomap \<Rightarrow> config gomap" where
  "pdProxiesOf [] pdProxies = pdProxies"
| "pdProxiesOf (pdProxy # rest) pdProxies =
     (case map_of pdProxy ''name'' of
        Some (AString proxyName) \<Rightarrow> pdProxiesOf rest (AList.update proxyName pdProxy pdProxies)
      | _ \<Rightarrow> pdProxiesOf rest pdProxies)"

text \<open>The proxies of one provider (lines 198 to 223).\<close>

fun addProviderProxies ::
  "string \<Rightarrow> config gomap \<Rightarrow> Proxy list \<Rightarrow> CProxy gomap \<Rightarrow> CProxy gomap" where
  "addProviderProxies name pdProxies [] proxies = proxies"
| "addProviderProxies name pdProxies (proxy # rest) proxies =
     (let proxyName = ''['' @ name @ ''] '' @ Name proxy
      in case map_of pdProxies (Name proxy) of
           Some proxyConfig \<Rightarrow>
             addProviderProxies name pdProxies rest
               (AList.update (uniqueName proxies proxyName) (newCProxy proxy proxyConfig) proxies)
         | None \<Rightarrow> addProviderProxies name pdProxies rest proxies)"

text \<open>One provider (lines 145 to 224): every failure skips the provider.\<close>

definition loadProvider :: "world \<Rightarrow> string \<times> config \<Rightarrow> CProxy gomap \<Rightarrow> CProxy gomap" where
  "loadProvider w entry proxies =
     (case entry of (name, cfg) \<Rightarrow>
        if name = provider_ReservedName w then proxies
        else case provider_ParseProxyProvider w name cfg of
          None \<Rightarrow> proxies
        | Some pd \<Rightarrow>
            if \<not> InitialOk pd then proxies
            else case map_of cfg ''url'' of
              Some (AString urlStr) \<Rightarrow>
                (case http_Get w urlStr of
                   Body providerBody \<Rightarrow>
                     (case yaml_Unmarshal w providerBody of
                        None \<Rightarrow> proxies
                      | Some pdRawCfg \<Rightarrow>
                          addProviderProxies name (pdProxiesOf (RawConfig.Proxies pdRawCfg) [])
                            (ProxyProvider.Proxies pd) proxies)
                 | _ \<Rightarrow> proxies)
            | _ \<Rightarrow> proxies)"

fun loadProviders :: "world \<Rightarrow> (string \<times> config) list \<Rightarrow> CProxy gomap \<Rightarrow> CProxy gomap" where
  "loadProviders w [] proxies = proxies"
| "loadProviders w (entry # rest) proxies = loadProviders w rest (loadProvider w entry proxies)"

text \<open>The switch on \<open>p.Type()\<close> (lines 229 to 237).\<close>

definition supportedType :: "AdapterType \<Rightarrow> bool" where
  "supportedType t =
     (t \<in> set [Shadowsocks, ShadowsocksR, Snell, Socks5, Http, Vmess, Vless, Trojan,
                Hysteria, Hysteria2, WireGuard, Tuic, Ssh, Mieru, AnyTLS])"

text \<open>
  The address fix (lines 239 to 242). The type assertion \<open>server.(string)\<close> has no
  \<open>ok\<close> result: it panics on a value that is not a string. The source writes the new
  address into the map that \<open>p.Config\<close> refers to; the model returns the proxy with the
  updated configuration.
\<close>

definition fixServer :: "world \<Rightarrow> CProxy \<Rightarrow> panic + CProxy" where
  "fixServer w p =
     (case map_of (Config p) ''server'' of
        None \<Rightarrow> Inr p
      | Some (AString server) \<Rightarrow>
          Inr (p\<lparr>Config := AList.update ''server'' (AString (convertMappedIPv6ToIPv4 w server)) (Config p)\<rparr>)
      | Some _ \<Rightarrow> Inl InterfaceConversion)"

text \<open>One iteration of the filter-and-merge loop (lines 227 to 265).\<close>

definition mergeProxy ::
  "world \<Rightarrow> bool \<Rightarrow> string \<times> CProxy \<Rightarrow> CProxy gomap \<Rightarrow> panic + CProxy gomap" where
  "mergeProxy w stashCompatible entry allProxies =
     (case entry of (k, p) \<Rightarrow>
        if \<not> supportedType (Type p) then Inr allProxies
        else case fixServer w p of
          Inl e \<Rightarrow> Inl e
        | Inr p' \<Rightarrow>
            if stashCompatible \<and> \<not> isStashCompatible p' then Inr allProxies
            else Inr (AList.update (uniqueName allProxies k) p' allProxies))"

fun mergeProxies ::
  "world \<Rightarrow> bool \<Rightarrow> (string \<times> CProxy) list \<Rightarrow> CProxy gomap \<Rightarrow> panic + CProxy gomap" where
  "mergeProxies w stashCompatible [] allProxies = Inr allProxies"
| "mergeProxies w stashCompatible (entry # rest) allProxies =
     (case mergeProxy w stashCompatible entry allProxies of
        Inl e \<Rightarrow> Inl e
      | Inr allProxies' \<Rightarrow> mergeProxies w stashCompatible rest allProxies')"

text \<open>Fetching the content of a source (lines 84 to 104).\<close>

definition fetchConfig :: "world \<Rightarrow> string \<Rightarrow> string option" where
  "fetchConfig w configPath =
     (if HasPrefix configPath ''http''
      then (case http_Get w configPath of Body body \<Rightarrow> Some body | _ \<Rightarrow> None)
      else os_ReadFile w configPath)"

text \<open>The body of the loop over the configuration paths (lines 75 to 266).\<close>

definition loadConfig :: "world \<Rightarrow> bool \<Rightarrow> string \<Rightarrow> CProxy gomap \<Rightarrow> panic + CProxy gomap" where
  "loadConfig w stashCompatible path allProxies =
     (let configPath = strings_TrimSpace w path
      in if configPath = [] then Inr allProxies
         else case fetchConfig w configPath of
           None \<Rightarrow> Inr allProxies
         | Some body \<Rightarrow>
             (case yaml_Unmarshal w body of
                None \<Rightarrow> Inr allProxies
              | Some rawCfg \<Rightarrow>
                  let proxies = loadDirect w (RawConfig.Proxies rawCfg) [];
                      proxies' = loadProviders w (range_map w (Providers rawCfg)) proxies
                  in mergeProxies w stashCompatible (range_map w proxies') allProxies))"

fun loadConfigs :: "world \<Rightarrow> bool \<Rightarrow> string list \<Rightarrow> CProxy gomap \<Rightarrow> panic + CProxy gomap" where
  "loadConfigs w stashCompatible [] allProxies = Inr allProxies"
| "loadConfigs w stashCompatible (path # paths) allProxies =
     (case loadConfig w stashCompatible path allProxies of
        Inl e \<Rightarrow> Inl e
      | Inr allProxies' \<Rightarrow> loadConfigs w stashCompatible paths allProxies')"

subsection \<open>The name filters and \<open>LoadProxies\<close>\<close>

text \<open>The block keywords (lines 272 to 280).\<close>

definition blockKeywordsOf :: "world \<Rightarrow> string \<Rightarrow> string list" where
  "blockKeywordsOf w blockRegex =
     (if blockRegex = [] then []
      else map (strings_ToLower w)
             (filter (\<lambda>keyword. keyword \<noteq> [])
                (map (strings_TrimSpace w) (Split blockRegex (CHR ''|'')))))"

definition shouldBlock :: "world \<Rightarrow> string list \<Rightarrow> string \<Rightarrow> bool" where
  "shouldBlock w blockKeywords name =
     (length blockKeywords > 0 \<and>
      list_ex (\<lambda>keyword. Contains (strings_ToLower w name) keyword) blockKeywords)"

text \<open>
  The loop over the names of \<open>allProxies\<close> (lines 282 to 306); the state is
  \<open>filteredProxies\<close>, \<open>st.blockedNodes\<close> and \<open>st.blockedNodeCount\<close>. The entry carries
  the value \<open>allProxies[name]\<close> of the key being visited.
\<close>

fun filterNames ::
  "world \<Rightarrow> (string \<Rightarrow> bool) \<Rightarrow> string list \<Rightarrow> (string \<times> CProxy) list
     \<Rightarrow> CProxy gomap \<times> string list \<times> int \<Rightarrow> CProxy gomap \<times> string list \<times> int" where
  "filterNames w matchString blockKeywords [] acc = acc"
| "filterNames w matchString blockKeywords ((name, p) # rest) (filteredProxies, blocked, n) =
     (if shouldBlock w blockKeywords name
      then filterNames w matchString blockKeywords rest (filteredProxies, blocked @ [name], n + 1)
      else if matchString name
      then filterNames w matchString blockKeywords rest
             (AList.update name p filteredProxies, blocked, n)
      else filterNames w matchString blockKeywords rest (filteredProxies, blocked, n))"

datatype load_error = NoValidProxiesLoaded

text \<open>
  \<open>LoadProxies\<close>: a panic, or the tester with its diagnostics updated and either the
  error \<open>no valid proxies loaded from configs\<close> or the filtered registry.
\<close>

definition LoadProxies ::
  "world \<Rightarrow> 'f SpeedTester \<Rightarrow> bool \<Rightarrow> panic + ('f SpeedTester \<times> (load_error + CProxy gomap))" where
  "LoadProxies w st stashCompatible =
     (case loadConfigs w stashCompatible (Split (ConfigPaths (config st)) (CHR '','')) [] of
        Inl e \<Rightarrow> Inl e
      | Inr allProxies \<Rightarrow>
          (case regexp_Compile w (FilterRegex (config st)) of
             None \<Rightarrow> Inl RegexpMustCompile
           | Some matchString \<Rightarrow>
               (case filterNames w matchString (blockKeywordsOf w (BlockRegex (config st)))
                       (range_map w allProxies) ([], [], 0) of
                  (filteredProxies, blocked, n) \<Rightarrow>
                    if length filteredProxies = 0
                    then Inr (st\<lparr>blockedNodes := blocked, blockedNodeCount := n\<rparr>,
                              Inl NoValidProxiesLoaded)
                    else Inr (st\<lparr>blockedNodes := blocked, blockedNodeCount := n\<rparr>,
                              Inr filteredProxies))))"

text \<open>
  What an iteration of the filter-and-merge loop stores for the proxy \<open>p\<close>, when it does
  not panic: nothing for an unsupported or (under the compatibility filter) incompatible
  proxy, else the proxy with its address fixed.
\<close>

definition stored :: "world \<Rightarrow> bool \<Rightarrow> CProxy \<Rightarrow> CProxy option" where
  "stored w stashCompatible p =
     (if \<not> supportedType (Type p) then None
      else case fixServer w p of
        Inl e \<Rightarrow> None
      | Inr p' \<Rightarrow> if stashCompatible \<and> \<not> isStashCompatible p' then None else Some p')"

text \<open>
  Storing a list of candidates (name and value) one after the other, each appended
  under the unique name it gets in the map built so far.
\<close>

fun store_each :: "(string \<times> 'v) list \<Rightarrow> 'v gomap \<Rightarrow> 'v gomap" where
  "store_each [] m = m"
| "store_each ((name, v) # rest) m = store_each rest (m @ [(uniqueName m name, v)])"

text \<open>
  The map a caller holds after \<open>LoadProxies\<close> returned: the registry, or the nil map
  that comes with the error.
\<close>

fun returned_map :: "load_error + CProxy gomap \<Rightarrow> CProxy gomap" where
  "returned_map (Inl e) = []"
| "returned_map (Inr filteredProxies) = filteredProxies"


section \<open>Example inputs\<close>

definition example_proxy :: CProxy where
  "example_proxy = \<lparr>Name = ''hk-01'', Type = Shadowsocks,
     Config = [(''name'', AString ''hk-01''), (''type'', AString ''ss''),
               (''server'', AString ''192.0.2.1''), (''cipher'', AString ''aes-256-gcm'')]\<rparr>"

definition example_config :: "real Config" where
  "example_config = \<lparr>ConfigPaths = ''config.yaml'', FilterRegex = ''.+'', BlockRegex = [],
     ServerURL = ''https://speed.cloudflare.com'', DownloadSize = 4000, UploadSize = 0,
     Timeout = 5000000000, Concurrent = 4, MaxLatency = 800000000,
     MinDownloadSpeed = 0, MinUploadSpeed = 0, FastMode = False\<rparr>"

definition example_network :: network where
  "example_network = \<lparr>probe = Response 200 0 50000000,
     download = (\<lambda>sz i. if i = 1 then RequestError else Response 200 1000 1000000000),
     upload = (\<lambda>sz i. RequestError)\<rparr>"

definition two_chunk_config :: "real Config" where
  "two_chunk_config = example_config\<lparr>Config.DownloadSize := 2000, Concurrent := 2\<rparr>"

definition two_chunk_network :: network where
  "two_chunk_network = \<lparr>probe = Response 200 0 50000000,
     download = (\<lambda>sz i. if i = 0 then Response 200 1000 1000000001 else Response 200 1000 1000000002),
     upload = (\<lambda>sz i. RequestError)\<rparr>"

definition refusing_network :: network where
  "refusing_network = \<lparr>probe = Response 503 0 120000000,
     download = (\<lambda>sz i. RequestError), upload = (\<lambda>sz i. RequestError)\<rparr>"

definition slow_config :: "real Config" where
  "slow_config = example_config\<lparr>Config.DownloadSize := 4000000, Config.UploadSize := 1000000,
     Concurrent := 1, MinDownloadSpeed := 5000000\<rparr>"

definition slow_network :: network where
  "slow_network = \<lparr>probe = Response 200 0 50000000,
     download = (\<lambda>sz i. Response 200 4000000 1000000000),
     upload = (\<lambda>sz i. Response 200 sz 1000000000)\<rparr>"

definition fast_config :: "real Config" where
  "fast_config = example_config\<lparr>FastMode := True\<rparr>"

definition late_network :: network where
  "late_network = \<lparr>probe = Response 200 0 900000000,
     download = (\<lambda>sz i. Response 200 sz 1000000000),
     upload = (\<lambda>sz i. Response 200 sz 1000000000)\<rparr>"

definition slow_result :: "real Result" where
  "slow_result = (newResult real_ops ''hk-01'' example_proxy)
     \<lparr>Latency := 50000000, DownloadSize := 4000000, DownloadTime := 1000000000,
      DownloadSpeed := 4000000\<rparr>"

subsection \<open>A load from two files and a provider\<close>

text \<open>
  \<open>strings.TrimSpace\<close> and \<open>strings.ToLower\<close> on ASCII strings, and a compiler for the
  patterns the examples use: \<open>.+\<close> matches a string that has a character other than
  a newline, a pattern of letters matches a string that contains it, and \<open>(\<close> does not
  compile.
\<close>

definition is_space :: "char \<Rightarrow> bool" where
  "is_space c = (c \<in> set [CHR '' '', CHR 0x09, CHR 0x0A, CHR 0x0B, CHR 0x0C, CHR 0x0D])"

definition ascii_TrimSpace :: "string \<Rightarrow> string" where
  "ascii_TrimSpace s = rev (dropWhile is_space (rev (dropWhile is_space s)))"

definition ascii_ToLower :: "string \<Rightarrow> string" where
  "ascii_ToLower s =
     map (\<lambda>c. if 65 \<le> (of_char c :: nat) \<and> (of_char c :: nat) \<le> 90
               then char_of (of_char c + 32 :: nat) else c) s"

definition example_Compile :: "string \<Rightarrow> (string \<Rightarrow> bool) option" where
  "example_Compile pattern =
     (if pattern = ''.+'' then Some (\<lambda>s. list_ex (\<lambda>c. c \<noteq> CHR 0x0A) s)
      else if pattern = ''('' then None
      else Some (\<lambda>s. Contains s pattern))"

definition example_ParseProxy :: "config \<Rightarrow> Proxy option" where
  "example_ParseProxy cfg =
     (case (map_of cfg ''name'', map_of cfg ''type'') of
        (Some (AString n), Some (AString t)) \<Rightarrow>
          if t = ''ss'' then Some \<lparr>Name = n, Type = Shadowsocks\<rparr>
          else if t = ''trojan'' then Some \<lparr>Name = n, Type = Trojan\<rparr>
          else if t = ''mieru'' then Some \<lparr>Name = n, Type = Mieru\<rparr>
          else if t = ''anytls'' then Some \<lparr>Name = n, Type = AnyTLS\<rparr>
          else None
      | _ \<Rightarrow> None)"

definition ss_hk :: config where
  "ss_hk = [(''name'', AString ''hk-01''), (''type'', AString ''ss''),
            (''server'', AString ''::ffff:192.0.2.1''), (''cipher'', AString ''aes-256-gcm'')]"

definition ss_hk_again :: config where
  "ss_hk_again = [(''name'', AString ''hk-01''), (''type'', AString ''ss''),
                  (''server'', AString ''198.51.100.7''), (''cipher'', AString ''unknown-cipher'')]"

definition mieru_jp :: config where
  "mieru_jp = [(''name'', AString ''jp-01''), (''type'', AString ''mieru'')]"

definition trojan_hk :: config where
  "trojan_hk = [(''name'', AString ''hk-01''), (''type'', AString ''trojan''),
                (''server'', AString ''203.0.113.9'')]"

definition anytls_us :: config where
  "anytls_us = [(''name'', AString ''us-01''), (''type'', AString ''anytls'')]"

definition vmess_hk :: config where
  "vmess_hk = [(''name'', AString ''hk-01''), (''type'', AString ''vmess''),
               (''server'', AString ''203.0.113.10'')]"

definition example_world :: world where
  "example_world =
     \<lparr>http_Get = (\<lambda>url. if url = ''https://example.com/p.yaml'' then Body ''P'' else GetError),
      os_ReadFile = (\<lambda>path. if path = ''a.yaml'' then Some ''A''
                             else if path = ''b.yaml'' then Some ''B'' else None),
      yaml_Unmarshal =
        (\<lambda>body. if body = ''A''
                   then Some \<lparr>Providers = [], Proxies = [ss_hk, ss_hk_again, mieru_jp]\<rparr>
                 else if body = ''B''
                   then Some \<lparr>Providers = [(''prov'', [(''url'', AString ''https://example.com/p.yaml'')])],
                              Proxies = [trojan_hk, anytls_us]\<rparr>
                 else if body = ''P''
                   then Some \<lparr>Providers = [], Proxies = [vmess_hk]\<rparr>
                 else None),
      adapter_ParseProxy = example_ParseProxy,
      provider_ParseProxyProvider =
        (\<lambda>name cfg. if name = ''prov''
                      then Some \<lparr>InitialOk = True, Proxies = [\<lparr>Name = ''hk-01'', Type = Vmess\<rparr>]\<rparr>
                      else None),
      provider_ReservedName = ''default'',
      net_ParseIP_To4 = (\<lambda>s. if s = ''::ffff:192.0.2.1'' then Some ''192.0.2.1''
                              else if s = ''198.51.100.7'' \<or> s = ''203.0.113.9'' \<or> s = ''203.0.113.10''
                              then Some s else None),
      regexp_Compile = example_Compile,
      strings_TrimSpace = ascii_TrimSpace,
      strings_ToLower = ascii_ToLower,
      range_order = (\<lambda>keys. [1])\<rparr>"

definition example_tester :: "real SpeedTester" where
  "example_tester =
     New (example_config\<lparr>ConfigPaths := ''a.yaml, missing.yaml ,b.yaml'', FilterRegex := ''hk'',
                          BlockRegex := ''JP | ''\<rparr>)"

text \<open>The registry of all sources after the two files, without the compatibility filter.\<close>

definition example_after_a :: "CProxy gomap" where
  "example_after_a =
     [(renamed ''hk-01'' 1, newCProxy \<lparr>Name = ''hk-01'', Type = Shadowsocks\<rparr> ss_hk_again),
      (''hk-01'', newCProxy \<lparr>Name = ''hk-01'', Type = Shadowsocks\<rparr>
                    (AList.update ''server'' (AString ''192.0.2.1'') ss_hk)),
      (''jp-01'', newCProxy \<lparr>Name = ''jp-01'', Type = Mieru\<rparr> mieru_jp)]"



definition example_merged :: "CProxy gomap" where
  "example_merged =
     example_after_a @
     [(''us-01'', newCProxy \<lparr>Name = ''us-01'', Type = AnyTLS\<rparr> anytls_us),
      (renamed ''hk-01'' 2, newCProxy \<lparr>Name = ''hk-01'', Type = Trojan\<rparr> trojan_hk),
      (''[prov] hk-01'', newCProxy \<lparr>Name = ''hk-01'', Type = Vmess\<rparr> vmess_hk)]"

text \<open>What \<open>LoadProxies\<close> returns for it, without and with the compatibility filter.\<close>

definition example_filtered :: "CProxy gomap" where
  "example_filtered =
     [(''hk-01'', newCProxy \<lparr>Name = ''hk-01'', Type = Shadowsocks\<rparr>
                    (AList.update ''server'' (AString ''192.0.2.1'') ss_hk)),
      (renamed ''hk-01'' 1, newCProxy \<lparr>Name = ''hk-01'', Type = Shadowsocks\<rparr> ss_hk_again),
      (renamed ''hk-01'' 2, newCProxy \<lparr>Name = ''hk-01'', Type = Trojan\<rparr> trojan_hk),
      (''[prov] hk-01'', newCProxy \<lparr>Name = ''hk-01'', Type = Vmess\<rparr> vmess_hk)]"

definition example_filtered_stash :: "CProxy gomap" where
  "example_filtered_stash =
     [(renamed ''hk-01'' 1, newCProxy \<lparr>Name = ''hk-01'', Type = Trojan\<rparr> trojan_hk),
      (''hk-01'', newCProxy \<lparr>Name = ''hk-01'', Type = Shadowsocks\<rparr>
                    (AList.update ''server'' (AString ''192.0.2.1'') ss_hk)),
      (''[prov] hk-01'', newCProxy \<lparr>Name = ''hk-01'', Type = Vmess\<rparr> vmess_hk)]"

text \<open>A tester whose allow pattern does not compile.\<close>

definition broken_tester :: "real SpeedTester" where
  "broken_tester = New (example_config\<lparr>ConfigPaths := ''a.yaml,b.yaml'', FilterRegex := ''(''\<rparr>)"

text \<open>
  A parser for Shadowsocks entries that asks for what the proxy library asks: a name,
  the type \<open>ss\<close>, a server (a string, or a number, which the library's weakly typed
  decoder turns into a string), a port, a cipher and a password.
\<close>

definition has_string :: "config \<Rightarrow> string \<Rightarrow> bool" where
  "has_string cfg key = (case map_of cfg key of Some (AString s) \<Rightarrow> True | _ \<Rightarrow> False)"

definition has_int :: "config \<Rightarrow> string \<Rightarrow> bool" where
  "has_int cfg key = (case map_of cfg key of Some (AInt i) \<Rightarrow> True | _ \<Rightarrow> False)"

definition shadowsocks_ParseProxy :: "config \<Rightarrow> Proxy option" where
  "shadowsocks_ParseProxy cfg =
     (if map_of cfg ''type'' = Some (AString ''ss'') \<and>
         (has_string cfg ''server'' \<or> has_int cfg ''server'') \<and> has_int cfg ''port'' \<and>
         has_string cfg ''cipher'' \<and> has_string cfg ''password''
      then (case map_of cfg ''name'' of
              Some (AString n) \<Rightarrow> Some \<lparr>Name = n, Type = Shadowsocks\<rparr>
            | _ \<Rightarrow> None)
      else None)"

text \<open>
  A file with two complete Shadowsocks entries; the second has a number for its server.
  The same file without the second entry is the control.
\<close>

definition ss_hk_complete :: config where
  "ss_hk_complete = [(''name'', AString ''hk-01''), (''type'', AString ''ss''),
                     (''server'', AString ''192.0.2.1''), (''port'', AInt 8388),
                     (''cipher'', AString ''aes-256-gcm''), (''password'', AString ''secret'')]"

definition ss_numeric_server :: config where
  "ss_numeric_server = [(''name'', AString ''sg-01''), (''type'', AString ''ss''),
                        (''server'', AInt 2130706433), (''port'', AInt 8388),
                        (''cipher'', AString ''aes-256-gcm''), (''password'', AString ''secret'')]"

definition numeric_world :: world where
  "numeric_world =
     example_world\<lparr>yaml_Unmarshal :=
       (\<lambda>body. if body = ''A''
                  then Some \<lparr>Providers = [], Proxies = [ss_hk_complete, ss_numeric_server]\<rparr>
                else None),
       adapter_ParseProxy := shadowsocks_ParseProxy\<rparr>"

definition control_world :: world where
  "control_world =
     example_world\<lparr>yaml_Unmarshal :=
       (\<lambda>body. if body = ''A''
                  then Some \<lparr>Providers = [], Proxies = [ss_hk_complete]\<rparr>
                else None),
       adapter_ParseProxy := shadowsocks_ParseProxy\<rparr>"

definition numeric_tester :: "real SpeedTester" where
  "numeric_tester = New (example_config\<lparr>ConfigPaths := ''a.yaml'', FilterRegex := ''.+''\<rparr>)"


section \<open>Properties of the speed test engine\<close>

subsection \<open>Wrap-around and the receive loop\<close>

lemma wrap64_id: "- (2 ^ 63) \<le> x \<Longrightarrow> x < 2 ^ 63 \<Longrightarrow> wrap64 x = x"
  by (simp add: wrap64_def)

lemma wrap64_add_left: "wrap64 (wrap64 x + y) = wrap64 (x + y)"
  unfolding wrap64_def by (simp add: mod_simps ac_simps)

lemma wrap64_0: "wrap64 0 = 0"
  by (simp add: wrap64_def)

lemma receive_wrapped:
  "receive rs (wrap64 b, wrap64 t, n) =
     (wrap64 (b + sum_list (map bytes (successes rs))),
      wrap64 (t + sum_list (map duration (successes rs))),
      n + int (length (successes rs)))"
proof (induction rs arbitrary: b t n)
  case Nil
  then show ?case by simp
next
  case (Cons r rs)
  show ?case
  proof (cases r)
    case None
    then show ?thesis using Cons.IH by simp
  next
    case (Some dr)
    have "receive (r # rs) (wrap64 b, wrap64 t, n)
        = receive rs (wrap64 (b + bytes dr), wrap64 (t + duration dr), n + 1)"
      using Some by (simp add: wrap64_add_left)
    then show ?thesis using Some by (simp add: Cons.IH add.assoc)
  qed
qed

lemma receive_zero:
  "receive rs (0, 0, 0) =
     (wrap64 (sum_list (map bytes (successes rs))),
      wrap64 (sum_list (map duration (successes rs))),
      int (length (successes rs)))"
  using receive_wrapped [of rs 0 0 0] by (simp add: wrap64_0)

subsection \<open>The stages in closed form\<close>

lemma downloadStage_closed:
  "downloadStage ops cfg net c result =
     (let ok = successes (downloadResults cfg net c);
          tb = wrap64 (sum_list (map bytes ok));
          tt = wrap64 (sum_list (map duration ok))
      in if ok \<noteq> []
         then result\<lparr>DownloadSize := of_int64 ops tb,
                     DownloadTime := go_div tt (int (length ok)),
                     DownloadSpeed := fdiv ops (of_int64 ops tb) (Seconds ops (go_div tt (int (length ok))))\<rparr>
         else result)"
  by (simp add: downloadStage_def receive_zero Let_def)

lemma uploadStage_closed:
  "uploadStage ops cfg net c result =
     (let ok = successes (uploadResults cfg net c);
          tb = wrap64 (sum_list (map bytes ok));
          tt = wrap64 (sum_list (map duration ok))
      in if ok \<noteq> []
         then result\<lparr>UploadSize := of_int64 ops tb,
                     UploadTime := go_div tt (int (length ok)),
                     UploadSpeed := fdiv ops (of_int64 ops tb) (Seconds ops (go_div tt (int (length ok))))\<rparr>
         else result)"
  by (simp add: uploadStage_def receive_zero Let_def)

lemma uploadStage_keeps_download:
  "DownloadSize (uploadStage ops cfg net c result) = DownloadSize result"
  "DownloadTime (uploadStage ops cfg net c result) = DownloadTime result"
  "DownloadSpeed (uploadStage ops cfg net c result) = DownloadSpeed result"
  by (simp_all add: uploadStage_closed Let_def)

lemma testProxy_upload_returns:
  assumes "0 < Concurrent cfg"
  shows "\<exists>r t. testProxy_upload ops cfg net result trace = Inr (r, t) \<and>
           DownloadSize r = DownloadSize result \<and> DownloadTime r = DownloadTime result \<and>
           DownloadSpeed r = DownloadSpeed result"
  using assms by (simp add: testProxy_upload_def Let_def uploadStage_keeps_download)

lemma testProxy_download_returns:
  assumes "0 < Concurrent cfg"
  shows "\<exists>r t. testProxy_download ops cfg net result trace = Inr (r, t)"
  using assms testProxy_upload_returns [OF assms]
  by (simp add: testProxy_download_def Let_def) blast

subsection \<open>Aggregation of the download stage\<close>

text \<open>
  Claim C1, as the code has it. When the download stage of \<open>testProxy\<close> runs (the probe
  answered 200, fast mode is off, the latency is within \<open>MaxLatency\<close>, and the chunk
  size \<open>DownloadSize / Concurrent\<close> is positive), the call returns a result, and with
  \<open>ok\<close> the results of the sub-tasks that succeeded: if \<open>ok\<close> is not empty,
  \<open>DownloadSize\<close> is the float64 of the sum of their byte counts, \<open>DownloadTime\<close> is the
  sum of their durations divided by their number with Go's integer division (the mean
  truncated to a whole nanosecond), and \<open>DownloadSpeed\<close> is \<open>DownloadSize\<close> divided by
  \<open>DownloadTime.Seconds()\<close>; a failed sub-task is in none of the three. If every
  sub-task failed, the three fields keep their zero values. The sums are the int64
  accumulators of the source: \<open>wrap64 s = s\<close> for every \<open>s\<close> that fits 64 bits
  (\<open>wrap64_id\<close>).
\<close>

theorem download_aggregation:
  assumes "probe net = Response 200 n e"
    and "\<not> FastMode (config st)"
    and "e \<le> MaxLatency (config st)"
    and "0 < Concurrent (config st)"
    and "0 < go_div (Config.DownloadSize (config st)) (Concurrent (config st))"
  shows "\<exists>r t. testProxy ops st net name proxy = Inr (r, t) \<and>
     (let ok = successes (downloadResults (config st) net
                            (go_div (Config.DownloadSize (config st)) (Concurrent (config st))))
      in if ok \<noteq> []
         then DownloadSize r = of_int64 ops (wrap64 (sum_list (map bytes ok))) \<and>
              DownloadTime r = go_div (wrap64 (sum_list (map duration ok))) (int (length ok)) \<and>
              DownloadSpeed r = fdiv ops (DownloadSize r) (Seconds ops (DownloadTime r))
         else DownloadSize r = of_int64 ops 0 \<and> DownloadTime r = 0 \<and>
              DownloadSpeed r = of_int64 ops 0)"
proof -
  let ?cfg = "config st"
  let ?c = "go_div (Config.DownloadSize ?cfg) (Concurrent ?cfg)"
  let ?r0 = "(newResult ops name proxy)\<lparr>Latency := e\<rparr>"
  let ?r1 = "downloadStage ops ?cfg net ?c ?r0"
  let ?t1 = "[ProbeGet] @ replicate (nat (Concurrent ?cfg)) (DownloadGet ?c)"
  have tp: "testProxy ops st net name proxy = testProxy_download ops ?cfg net ?r0 [ProbeGet]"
    using assms by (simp add: testProxy_def Let_def)
  have td: "testProxy_download ops ?cfg net ?r0 [ProbeGet] =
      (if flt ops (DownloadSpeed ?r1) (MinDownloadSpeed ?cfg) then Inr (?r1, ?t1)
       else testProxy_upload ops ?cfg net ?r1 ?t1)"
    using assms by (simp add: testProxy_download_def Let_def)
  obtain r t where rt: "testProxy ops st net name proxy = Inr (r, t)"
    and same: "DownloadSize r = DownloadSize ?r1" "DownloadTime r = DownloadTime ?r1"
      "DownloadSpeed r = DownloadSpeed ?r1"
  proof (cases "flt ops (DownloadSpeed ?r1) (MinDownloadSpeed ?cfg)")
    case True
    then show ?thesis using tp td that by simp
  next
    case False
    then show ?thesis
      using tp td that testProxy_upload_returns [OF assms(4), of ops net ?r1 ?t1] by auto
  qed
  have "(let ok = successes (downloadResults ?cfg net ?c)
      in if ok \<noteq> []
         then DownloadSize ?r1 = of_int64 ops (wrap64 (sum_list (map bytes ok))) \<and>
              DownloadTime ?r1 = go_div (wrap64 (sum_list (map duration ok))) (int (length ok)) \<and>
              DownloadSpeed ?r1 = fdiv ops (DownloadSize ?r1) (Seconds ops (DownloadTime ?r1))
         else DownloadSize ?r1 = of_int64 ops 0 \<and> DownloadTime ?r1 = 0 \<and>
              DownloadSpeed ?r1 = of_int64 ops 0)"
    by (simp add: downloadStage_closed Let_def newResult_def)
  then show ?thesis using rt same by (simp add: Let_def)
qed

text \<open>
  The example of the specification: four chunks, three of 1000 bytes in one second each
  and one that failed.
\<close>

lemma upt4: "[0..<4] = [0,1,2,3]" by (simp add: upt_rec)

lemma upt2: "[0..<2] = [0,1]" by (simp add: upt_rec)

lemma ex_successes:
  "successes (downloadResults (config (New example_config)) example_network 1000) =
    [\<lparr>bytes = 1000, duration = 1000000000\<rparr>, \<lparr>bytes = 1000, duration = 1000000000\<rparr>, \<lparr>bytes = 1000, duration = 1000000000\<rparr>]"
  by (simp add: downloadResults_def New_def example_config_def example_network_def testDownload_def upt4)

theorem download_aggregation_witness:
  "\<exists>r t. testProxy real_ops (New example_config) example_network ''hk-01'' example_proxy = Inr (r, t) \<and>
     DownloadSize r = 3000 \<and> DownloadTime r = 1000000000 \<and> DownloadSpeed r = 3000"
proof -
  have p: "probe example_network = Response 200 0 50000000"
    by (simp add: example_network_def)
  have c: "config (New example_config) = example_config"
    by (simp add: New_def example_config_def)
  have h: "\<not> FastMode (config (New example_config))"
     "50000000 \<le> MaxLatency (config (New example_config))"
     "0 < Concurrent (config (New example_config))"
     "0 < go_div (Config.DownloadSize (config (New example_config))) (Concurrent (config (New example_config)))"
    by (simp_all add: c) (simp_all add: example_config_def go_div_def)
  have g: "go_div (Config.DownloadSize (config (New example_config))) (Concurrent (config (New example_config))) = 1000"
    by (simp add: c) (simp add: example_config_def go_div_def)
  from download_aggregation [OF p h, of real_ops "''hk-01''" example_proxy]
  obtain r t where rt: "testProxy real_ops (New example_config) example_network ''hk-01'' example_proxy = Inr (r, t)"
    and "DownloadSize r = of_int64 real_ops (wrap64 3000)"
    and "DownloadTime r = go_div (wrap64 3000000000) 3"
    and "DownloadSpeed r = fdiv real_ops (DownloadSize r) (Seconds real_ops (DownloadTime r))"
    unfolding g ex_successes by (auto simp: Let_def)
  then have "DownloadSize r = 3000 \<and> DownloadTime r = 1000000000 \<and> DownloadSpeed r = 3000"
    by (simp add: wrap64_def go_div_def go_mod_def Seconds_def real_ops_def)
  with rt show ?thesis by blast
qed

text \<open>
  Claim C1 as stated fails where the durations do not divide evenly: for two chunks
  that took 1000000001 ns and 1000000002 ns, \<open>DownloadTime\<close> is 1000000001 ns, not
  their arithmetic mean 1000000001.5 ns.
\<close>

theorem download_time_not_exact_mean:
  "map_sum id (DownloadTime \<circ> fst)
     (testProxy real_ops (New two_chunk_config) two_chunk_network ''hk-01'' example_proxy)
     = Inr 1000000001 \<and>
   real_of_int 1000000001 \<noteq> (1000000001 + 1000000002) / 2"
  by (simp add: testProxy_def testProxy_download_def testProxy_upload_def New_def
      two_chunk_config_def example_config_def two_chunk_network_def Let_def go_div_def
      downloadStage_def downloadResults_def testDownload_def upt2 wrap64_def real_ops_def
      newResult_def)

subsection \<open>No panic, and the result of a failed probe\<close>

text \<open>
  Claim C2. For every configuration given to the constructor \<open>New\<close>, every network
  behaviour, name and proxy, \<open>testProxy\<close> returns a result (it does not panic); and
  when the probe fails to connect or answers with a status other than 200, the result
  of \<open>testProxy\<close> is the zero-valued \<open>Result\<close> but for \<open>ProxyName\<close>, \<open>ProxyType\<close> and
  \<open>ProxyConfig\<close>, after the probe request alone.
\<close>

theorem testProxy_never_panics:
  "(\<exists>r t. testProxy ops (New cfg) net name proxy = Inr (r, t)) \<and>
   ((probe net = RequestError \<or> (\<exists>status n e. probe net = Response status n e \<and> status \<noteq> 200)) \<longrightarrow>
      testProxy ops st net name proxy =
        Inr (\<lparr>ProxyName = name, ProxyType = type_String (Type proxy), ProxyConfig = Config proxy,
              Latency = 0, Jitter = 0, PacketLoss = of_int64 ops 0,
              DownloadSize = of_int64 ops 0, DownloadTime = 0, DownloadSpeed = of_int64 ops 0,
              UploadSize = of_int64 ops 0, UploadTime = 0, UploadSpeed = of_int64 ops 0\<rparr>,
             [ProbeGet]))"
proof -
  have pos: "0 < Concurrent (config (New cfg))"
    by (simp add: New_def Let_def)
  have "\<exists>r t. testProxy ops (New cfg) net name proxy = Inr (r, t)"
  proof (cases "probe net")
    case RequestError
    then show ?thesis by (simp add: testProxy_def)
  next
    case (Response status n e)
    then show ?thesis
      using testProxy_download_returns [OF pos]
      by (simp add: testProxy_def Let_def)
  qed
  moreover have "(probe net = RequestError \<or> (\<exists>status n e. probe net = Response status n e \<and> status \<noteq> 200)) \<longrightarrow>
      testProxy ops st net name proxy = Inr (newResult ops name proxy, [ProbeGet])"
    by (auto simp: testProxy_def)
  ultimately show ?thesis by (simp add: newResult_def)
qed

text \<open>
  A probe answered with status 503: the result is the zero-valued one with the three
  identity fields.
\<close>

theorem testProxy_never_panics_witness:
  "testProxy real_ops (New example_config) refusing_network ''hk-01'' example_proxy =
     Inr (\<lparr>ProxyName = ''hk-01'', ProxyType = ''Shadowsocks'', ProxyConfig = Config example_proxy,
              Latency = 0, Jitter = 0, PacketLoss = 0,
              DownloadSize = 0, DownloadTime = 0, DownloadSpeed = 0,
              UploadSize = 0, UploadTime = 0, UploadSpeed = 0\<rparr>, [ProbeGet])"
proof -
  have "probe refusing_network = Response 503 0 120000000 \<and> (503::int) \<noteq> 200"
    by (simp add: refusing_network_def)
  then have d: "probe refusing_network = RequestError \<or>
      (\<exists>status n e. probe refusing_network = Response status n e \<and> status \<noteq> 200)"
    by blast
  have "testProxy real_ops (New example_config) refusing_network ''hk-01'' example_proxy =
     Inr (\<lparr>ProxyName = ''hk-01'', ProxyType = type_String (Type example_proxy),
            ProxyConfig = Config example_proxy,
            Latency = 0, Jitter = 0, PacketLoss = of_int64 real_ops 0,
            DownloadSize = of_int64 real_ops 0, DownloadTime = 0, DownloadSpeed = of_int64 real_ops 0,
            UploadSize = of_int64 real_ops 0, UploadTime = 0, UploadSpeed = of_int64 real_ops 0\<rparr>,
          [ProbeGet])"
    using testProxy_never_panics [of real_ops example_config refusing_network "''hk-01''"
        example_proxy "New example_config", THEN conjunct2, THEN mp, OF d] .
  then show ?thesis by (simp add: real_ops_def example_proxy_def)
qed

text \<open>
  The constructor is what keeps the division \<open>DownloadSize / Concurrent\<close> safe: on a
  tester whose configuration has \<open>Concurrent = 0\<close>, which \<open>New\<close> never builds, a run
  that reaches the download stage panics.
\<close>

lemma testProxy_zero_Concurrent:
  assumes "probe net = Response 200 n e" and "\<not> FastMode (config st)"
    and "e \<le> MaxLatency (config st)" and "Concurrent (config st) = 0"
  shows "testProxy ops st net name proxy = Inl DivideByZero"
  using assms by (simp add: testProxy_def testProxy_download_def Let_def)

lemma New_Concurrent: "0 < Concurrent (config (New cfg))"
  by (simp add: New_def Let_def)

subsection \<open>Fast mode and the latency ceiling\<close>

text \<open>
  Claim C7. When the probe succeeds with elapsed time \<open>e\<close>: in fast mode \<open>testProxy\<close>
  returns at once with \<open>Latency = e\<close> and every other measurement zero, whatever \<open>e\<close> is
  (\<open>MaxLatency\<close> is not compared); with fast mode off and \<open>e\<close> above \<open>MaxLatency\<close> it
  returns the same result. In both cases the probe is the only request made.
\<close>

theorem fast_mode_skips_latency_ceiling:
  assumes "probe net = Response 200 n e"
  shows "(FastMode (config st) \<longrightarrow>
            testProxy ops st net name proxy = Inr ((newResult ops name proxy)\<lparr>Latency := e\<rparr>, [ProbeGet])) \<and>
         (\<not> FastMode (config st) \<and> MaxLatency (config st) < e \<longrightarrow>
            testProxy ops st net name proxy = Inr ((newResult ops name proxy)\<lparr>Latency := e\<rparr>, [ProbeGet]))"
  using assms by (simp add: testProxy_def Let_def)

text \<open>
  A probe that takes 900 ms against a ceiling of 800 ms: in fast mode the result carries
  the latency of 900 ms, and with fast mode off the call returns the same result
  without a download.
\<close>

theorem fast_mode_skips_latency_ceiling_witness:
  "MaxLatency (config (New fast_config)) < 900000000 \<and>
   testProxy real_ops (New fast_config) late_network ''hk-01'' example_proxy =
     Inr ((newResult real_ops ''hk-01'' example_proxy)\<lparr>Latency := 900000000\<rparr>, [ProbeGet]) \<and>
   MaxLatency (config (New example_config)) < 900000000 \<and>
   testProxy real_ops (New example_config) late_network ''hk-01'' example_proxy =
     Inr ((newResult real_ops ''hk-01'' example_proxy)\<lparr>Latency := 900000000\<rparr>, [ProbeGet])"
proof -
  have p: "probe late_network = Response 200 0 900000000"
    by (simp add: late_network_def)
  have f: "FastMode (config (New fast_config))" "MaxLatency (config (New fast_config)) < 900000000"
    by (simp_all add: New_def fast_config_def example_config_def)
  have s: "\<not> FastMode (config (New example_config)) \<and> MaxLatency (config (New example_config)) < 900000000"
    by (simp add: New_def example_config_def)
  show ?thesis
    using fast_mode_skips_latency_ceiling [OF p, of "New fast_config" real_ops "''hk-01''" example_proxy,
        THEN conjunct1, THEN mp, OF f(1)]
      fast_mode_skips_latency_ceiling [OF p, of "New example_config" real_ops "''hk-01''" example_proxy,
        THEN conjunct2, THEN mp, OF s]
      f(2) s by simp
qed

subsection \<open>The minimum download speed gates the upload stage\<close>

lemma testProxy_upload_trace:
  assumes "testProxy_upload ops cfg net result trace = Inr (r, t)"
  shows "\<exists>k u. t = trace @ replicate k (UploadPost u)"
proof (cases "0 < go_div (Config.UploadSize cfg) (Concurrent cfg)")
  case True
  then show ?thesis using assms
    by (auto simp: testProxy_upload_def Let_def split: if_splits)
next
  case False
  then have "t = trace @ replicate 0 (UploadPost 0)"
    using assms by (simp add: testProxy_upload_def Let_def split: if_splits)
  then show ?thesis by blast
qed

lemma testProxy_upload_MinUploadSpeed:
  "testProxy_upload ops (cfg\<lparr>MinUploadSpeed := x\<rparr>) net result trace =
   testProxy_upload ops cfg net result trace"
  by (simp add: testProxy_upload_def uploadStage_def uploadResults_def Let_def)

lemma testProxy_download_MinUploadSpeed:
  "testProxy_download ops (cfg\<lparr>MinUploadSpeed := x\<rparr>) net result trace =
   testProxy_download ops cfg net result trace"
  by (simp add: testProxy_download_def downloadStage_def downloadResults_def Let_def
      testProxy_upload_MinUploadSpeed)

lemma testProxy_MinUploadSpeed:
  "testProxy ops (st\<lparr>config := (config st)\<lparr>MinUploadSpeed := x\<rparr>\<rparr>) net name proxy =
   testProxy ops st net name proxy"
  by (simp add: testProxy_def testProxy_download_MinUploadSpeed Let_def split: http_reply.splits)

lemma testProxy_download_gate:
  assumes "testProxy_download ops cfg net result trace = Inr (r, t)"
    and "DownloadGet c \<in> set t" and "\<forall>d. DownloadGet d \<notin> set trace"
    and "flt ops (DownloadSpeed r) (MinDownloadSpeed cfg)"
  shows "t = trace @ replicate (nat (Concurrent cfg)) (DownloadGet c) \<and>
         UploadSize r = UploadSize result \<and> UploadTime r = UploadTime result \<and>
         UploadSpeed r = UploadSpeed result"
proof -
  let ?c = "go_div (Config.DownloadSize cfg) (Concurrent cfg)"
  have nz: "Concurrent cfg \<noteq> 0"
    using assms(1) by (auto simp: testProxy_download_def)
  show ?thesis
  proof (cases "0 < ?c")
    case False
    then have "testProxy_upload ops cfg net result trace = Inr (r, t)"
      using assms(1) nz by (simp add: testProxy_download_def Let_def)
    then obtain k u where "t = trace @ replicate k (UploadPost u)"
      using testProxy_upload_trace by blast
    then have False using assms(2,3) by auto
    then show ?thesis ..
  next
    case True
    let ?r1 = "downloadStage ops cfg net ?c result"
    let ?t1 = "trace @ replicate (nat (Concurrent cfg)) (DownloadGet ?c)"
    have ge: "\<not> Concurrent cfg < 0"
      using assms(1) True nz by (auto simp: testProxy_download_def Let_def)
    have ds: "DownloadSpeed r = DownloadSpeed ?r1"
    proof (cases "flt ops (DownloadSpeed ?r1) (MinDownloadSpeed cfg)")
      case True
      then show ?thesis using assms(1) \<open>0 < ?c\<close> nz ge
        by (auto simp: testProxy_download_def Let_def)
    next
      case False
      then have "testProxy_upload ops cfg net ?r1 ?t1 = Inr (r, t)"
        using assms(1) \<open>0 < ?c\<close> nz ge by (simp add: testProxy_download_def Let_def)
      then show ?thesis
        by (auto simp: testProxy_upload_def Let_def uploadStage_keeps_download split: if_splits)
    qed
    then have "flt ops (DownloadSpeed ?r1) (MinDownloadSpeed cfg)"
      using assms(4) by simp
    then have eq: "r = ?r1" "t = ?t1"
      using assms(1) True nz ge by (auto simp: testProxy_download_def Let_def)
    have "c = ?c" using eq(2) assms(2,3) by auto
    then show ?thesis using eq by (simp add: downloadStage_closed Let_def)
  qed
qed

text \<open>
  Claim C3. If \<open>testProxy\<close> returns \<open>r\<close> after a run whose download stage executed (a
  download request is in the trace) and \<open>DownloadSpeed r\<close> is below \<open>MinDownloadSpeed\<close>,
  then no upload request was made and \<open>UploadSize\<close>, \<open>UploadTime\<close> and \<open>UploadSpeed\<close> are
  zero. \<open>MinUploadSpeed\<close> is never consulted: changing it changes nothing of the
  outcome. Upload is the last stage: the requests of a run are the probe, then the
  downloads, then the uploads.
\<close>

theorem min_download_speed_gate:
  "(testProxy ops st net name proxy = Inr (r, trace) \<and> DownloadGet c \<in> set trace \<and>
      flt ops (DownloadSpeed r) (MinDownloadSpeed (config st)) \<longrightarrow>
        (\<forall>u. UploadPost u \<notin> set trace) \<and>
        UploadSize r = of_int64 ops 0 \<and> UploadTime r = 0 \<and> UploadSpeed r = of_int64 ops 0) \<and>
   testProxy ops (st\<lparr>config := (config st)\<lparr>MinUploadSpeed := x\<rparr>\<rparr>) net name proxy =
     testProxy ops st net name proxy \<and>
   (testProxy ops st net name proxy = Inr (r, trace) \<longrightarrow>
      (\<exists>k d m u. trace = ProbeGet # replicate k (DownloadGet d) @ replicate m (UploadPost u)))"
proof (intro conjI impI)
  assume a: "testProxy ops st net name proxy = Inr (r, trace) \<and> DownloadGet c \<in> set trace \<and>
      flt ops (DownloadSpeed r) (MinDownloadSpeed (config st))"
  let ?r0 = "(newResult ops name proxy)"
  obtain n e where p: "probe net = Response 200 n e"
    and td: "testProxy_download ops (config st) net (?r0\<lparr>Latency := e\<rparr>) [ProbeGet] = Inr (r, trace)"
    using a by (auto simp: testProxy_def Let_def split: http_reply.splits if_splits)
  have "trace = [ProbeGet] @ replicate (nat (Concurrent (config st))) (DownloadGet c) \<and>
         UploadSize r = UploadSize (?r0\<lparr>Latency := e\<rparr>) \<and> UploadTime r = UploadTime (?r0\<lparr>Latency := e\<rparr>) \<and>
         UploadSpeed r = UploadSpeed (?r0\<lparr>Latency := e\<rparr>)"
    using testProxy_download_gate [OF td, of c] a by simp
  then show "\<forall>u. UploadPost u \<notin> set trace" "UploadSize r = of_int64 ops 0"
    "UploadTime r = 0" "UploadSpeed r = of_int64 ops 0"
    by (auto simp: newResult_def)
next
  show "testProxy ops (st\<lparr>config := (config st)\<lparr>MinUploadSpeed := x\<rparr>\<rparr>) net name proxy =
     testProxy ops st net name proxy"
    by (rule testProxy_MinUploadSpeed)
next
  assume a: "testProxy ops st net name proxy = Inr (r, trace)"
  show "\<exists>k d m u. trace = ProbeGet # replicate k (DownloadGet d) @ replicate m (UploadPost u)"
  proof (cases "trace = [ProbeGet]")
    case True
    then have "trace = ProbeGet # replicate 0 (DownloadGet 0) @ replicate 0 (UploadPost 0)" by simp
    then show ?thesis by blast
  next
    case False
    let ?r0 = "(newResult ops name proxy)"
    let ?cfg = "config st"
    obtain n e where td: "testProxy_download ops ?cfg net (?r0\<lparr>Latency := e\<rparr>) [ProbeGet] = Inr (r, trace)"
      using a False by (auto simp: testProxy_def Let_def split: http_reply.splits if_splits)
    let ?c = "go_div (Config.DownloadSize ?cfg) (Concurrent ?cfg)"
    let ?r1 = "downloadStage ops ?cfg net ?c (?r0\<lparr>Latency := e\<rparr>)"
    let ?t1 = "[ProbeGet] @ replicate (nat (Concurrent ?cfg)) (DownloadGet ?c)"
    consider (early) "trace = ?t1"
      | (up1) "testProxy_upload ops ?cfg net ?r1 ?t1 = Inr (r, trace)"
      | (up0) "testProxy_upload ops ?cfg net (?r0\<lparr>Latency := e\<rparr>) [ProbeGet] = Inr (r, trace)"
      using td by (auto simp: testProxy_download_def Let_def split: if_splits)
    then show ?thesis
    proof cases
      case early
      then have "trace = ProbeGet # replicate (nat (Concurrent ?cfg)) (DownloadGet ?c) @ replicate 0 (UploadPost 0)"
        by simp
      then show ?thesis by blast
    next
      case up1
      then obtain m u where "trace = ?t1 @ replicate m (UploadPost u)"
        using testProxy_upload_trace by blast
      then have "trace = ProbeGet # replicate (nat (Concurrent ?cfg)) (DownloadGet ?c) @ replicate m (UploadPost u)"
        by simp
      then show ?thesis by blast
    next
      case up0
      then obtain m u where "trace = [ProbeGet] @ replicate m (UploadPost u)"
        using testProxy_upload_trace by blast
      then have "trace = ProbeGet # replicate 0 (DownloadGet 0) @ replicate m (UploadPost u)"
        by simp
      then show ?thesis by blast
    qed
  qed
qed

text \<open>
  The example of the specification: one chunk of 4000000 bytes in one second against a
  minimum of 5000000 bytes per second, with an upload size configured.
\<close>

lemma upt1: "[0..<Suc 0] = [0]" by simp

lemma slow_run:
  "testProxy real_ops (New slow_config) slow_network ''hk-01'' example_proxy =
     Inr (slow_result, [ProbeGet, DownloadGet 4000000])"
  by (simp add: testProxy_def testProxy_download_def testProxy_upload_def New_def
      slow_config_def example_config_def slow_network_def Let_def go_div_def go_mod_def
      downloadStage_def downloadResults_def testDownload_def wrap64_def real_ops_def
      newResult_def slow_result_def Seconds_def)

theorem min_download_speed_gate_witness:
  "testProxy real_ops (New slow_config) slow_network ''hk-01'' example_proxy =
     Inr (slow_result, [ProbeGet, DownloadGet 4000000]) \<and>
   DownloadSpeed slow_result = 4000000 \<and>
   MinDownloadSpeed (config (New slow_config)) = 5000000 \<and>
   (\<forall>u. UploadPost u \<notin> set [ProbeGet, DownloadGet 4000000]) \<and>
   UploadSize slow_result = 0 \<and> UploadTime slow_result = 0 \<and> UploadSpeed slow_result = 0"
proof -
  have sp: "DownloadSpeed slow_result = 4000000"
    by (simp add: slow_result_def)
  have mn: "MinDownloadSpeed (config (New slow_config)) = 5000000"
    by (simp add: New_def slow_config_def example_config_def)
  have h: "testProxy real_ops (New slow_config) slow_network ''hk-01'' example_proxy =
       Inr (slow_result, [ProbeGet, DownloadGet 4000000]) \<and>
     DownloadGet 4000000 \<in> set [ProbeGet, DownloadGet 4000000] \<and>
     flt real_ops (DownloadSpeed slow_result) (MinDownloadSpeed (config (New slow_config)))"
    by (simp add: slow_run sp mn) (simp add: real_ops_def)
  have "(\<forall>u. UploadPost u \<notin> set [ProbeGet, DownloadGet 4000000]) \<and>
        UploadSize slow_result = of_int64 real_ops 0 \<and> UploadTime slow_result = 0 \<and>
        UploadSpeed slow_result = of_int64 real_ops 0"
    using min_download_speed_gate [of real_ops "New slow_config" slow_network "''hk-01''"
        example_proxy slow_result "[ProbeGet, DownloadGet 4000000]" 4000000 0,
        THEN conjunct1, THEN mp, OF h] .
  then show ?thesis using slow_run sp mn by (simp add: real_ops_def)
qed

section \<open>Properties of the latency statistics\<close>

lemma fold_wrap64_sum:
  "fold (\<lambda>l total. wrap64 (total + l)) ls (wrap64 a) = wrap64 (a + sum_list ls)"
  by (induction ls arbitrary: a) (simp_all add: wrap64_add_left add.assoc)

lemma fold_total:
  "fold (\<lambda>l total. wrap64 (total + l)) ls 0 = wrap64 (sum_list ls)"
  using fold_wrap64_sum [of ls 0] by (simp add: wrap64_0)

lemma fold_variance:
  "fold (\<lambda>l variance. let diff = f l in fadd ops variance (fmul ops diff diff)) ls acc =
   fold (\<lambda>x acc. fadd ops acc x) (map (\<lambda>l. fmul ops (f l) (f l)) ls) acc"
  by (induction ls arbitrary: acc) (simp_all add: Let_def)

text \<open>
  Claim C8, as the code has it. For every list of samples and every count of failed
  probes, \<open>calculateLatencyStats\<close> returns the packet loss \<open>float64(failed) / 6.0 * 100\<close>.
  For a non-empty list the average latency is the sum of the samples divided by their
  number with Go's integer division (the mean truncated to a whole nanosecond), and the
  jitter is the float64 square root of the mean of the squared deviations from that
  truncated average, converted to a \<open>time.Duration\<close>. For the empty list both are
  zero.
\<close>

theorem latency_stats:
  "packetLoss (calculateLatencyStats ops latencies failedPings) =
     fmul ops (fdiv ops (of_int64 ops failedPings) (of_int64 ops 6)) (of_int64 ops 100) \<and>
   (latencies \<noteq> [] \<longrightarrow>
      (let avg = go_div (wrap64 (sum_list latencies)) (int (length latencies));
           dev = (\<lambda>l. of_int64 ops (wrap64 (l - avg)))
       in avgLatency (calculateLatencyStats ops latencies failedPings) = avg \<and>
          jitter (calculateLatencyStats ops latencies failedPings) =
            to_int64 ops (fsqrt ops
              (fdiv ops (fsum ops (map (\<lambda>l. fmul ops (dev l) (dev l)) latencies))
                        (of_int64 ops (int (length latencies))))))) \<and>
   (latencies = [] \<longrightarrow>
      avgLatency (calculateLatencyStats ops latencies failedPings) = 0 \<and>
      jitter (calculateLatencyStats ops latencies failedPings) = 0)"
  by (simp add: calculateLatencyStats_def Let_def fold_total fsum_def fold_variance [unfolded Let_def])

lemma sqrt_1e14: "sqrt 100000000000000 = 10000000"
  by (rule real_sqrt_unique) simp_all

text \<open>
  Samples of 10 ms and 30 ms with three failed probes: average 20 ms, jitter 10 ms,
  packet loss 50 percent; no sample and six failed probes: zero, zero and 100 percent.
\<close>

theorem latency_stats_witness:
  "calculateLatencyStats real_ops [10000000, 30000000] 3 =
     \<lparr>avgLatency = 20000000, jitter = 10000000, packetLoss = 50\<rparr> \<and>
   calculateLatencyStats real_ops [] 6 = \<lparr>avgLatency = 0, jitter = 0, packetLoss = 100\<rparr>"
proof -
  have ne: "[10000000, 30000000] \<noteq> ([] :: int list)" by simp
  have a: "avgLatency (calculateLatencyStats real_ops [10000000, 30000000] 3) = 20000000"
    and j: "jitter (calculateLatencyStats real_ops [10000000, 30000000] 3) = 10000000"
    using latency_stats [of real_ops "[10000000, 30000000]" 3, THEN conjunct2, THEN conjunct1, THEN mp, OF ne]
    by (simp_all add: Let_def wrap64_def go_div_def fsum_def real_ops_def sqrt_1e14)
  have p: "packetLoss (calculateLatencyStats real_ops [10000000, 30000000] 3) = 50"
    using latency_stats [of real_ops "[10000000, 30000000]" 3, THEN conjunct1]
    by (simp add: real_ops_def)
  have e: "avgLatency (calculateLatencyStats real_ops [] 6) = 0 \<and> jitter (calculateLatencyStats real_ops [] 6) = 0"
    using latency_stats [of real_ops "[]" 6, THEN conjunct2, THEN conjunct2] by simp
  have pe: "packetLoss (calculateLatencyStats real_ops [] 6) = 100"
    using latency_stats [of real_ops "[]" 6, THEN conjunct1]
    by (simp add: real_ops_def)
  have "calculateLatencyStats real_ops [10000000, 30000000] 3 =
     \<lparr>avgLatency = 20000000, jitter = 10000000, packetLoss = 50\<rparr>"
    using a j p by (cases "calculateLatencyStats real_ops [10000000, 30000000] 3") simp
  moreover have "calculateLatencyStats real_ops [] 6 = \<lparr>avgLatency = 0, jitter = 0, packetLoss = 100\<rparr>"
    using e pe by (cases "calculateLatencyStats real_ops [] 6") simp
  ultimately show ?thesis by simp
qed

text \<open>
  Claim C8 as stated fails where the samples do not divide evenly: for samples of
  20000001 ns and 20000002 ns the average latency is 20000001 ns, not their arithmetic
  mean 20000001.5 ns, and the jitter is 0 ns, not their standard deviation 0.5 ns.
\<close>

theorem average_latency_not_exact_mean:
  "avgLatency (calculateLatencyStats real_ops [20000001, 20000002] 0) = 20000001 \<and>
   jitter (calculateLatencyStats real_ops [20000001, 20000002] 0) = 0 \<and>
   real_of_int 20000001 \<noteq> (20000001 + 20000002) / 2"
proof -
  have "sqrt (1 / 2) < 1" by (simp add: real_sqrt_lt_1_iff)
  moreover have "0 \<le> sqrt (1 / 2)" by simp
  ultimately have "\<lfloor>sqrt (1 / 2)\<rfloor> = 0" by linarith
  then show ?thesis
    by (simp add: calculateLatencyStats_def Let_def wrap64_def go_div_def real_ops_def)
qed


section \<open>Properties of the registry\<close>

subsection \<open>Iteration order and the renaming loop\<close>


lemma mset_permute: "mset (permute cs xs) = mset xs"
proof (induction cs xs rule: permute.induct)
  case (3 c cs x xs)
  let ?ys = "x # xs"
  let ?i = "c mod length ?ys"
  have i: "?i < length ?ys" by simp
  have "mset ?ys = mset (take ?i ?ys @ ?ys ! ?i # drop (Suc ?i) ?ys)"
    using id_take_nth_drop [OF i] by simp
  then show ?case using 3 by (simp add: Let_def)
qed simp_all

text \<open>Every order of the entries is the order of some choices.\<close>

lemma permute_complete: "mset ys = mset xs \<Longrightarrow> \<exists>cs. permute cs xs = ys"
proof (induction ys arbitrary: xs)
  case Nil
  then have "permute [] xs = []" by simp
  then show ?case ..
next
  case (Cons y ys)
  then have "y \<in> set xs" by (metis list.set_intros(1) mset_eq_setD)
  then obtain i where i: "i < length xs" "xs ! i = y" by (auto simp: in_set_conv_nth)
  let ?rest = "take i xs @ drop (Suc i) xs"
  have "mset xs = mset (take i xs @ xs ! i # drop (Suc i) xs)"
    using id_take_nth_drop [OF i(1)] by simp
  then have "mset ys = mset ?rest" using Cons.prems i(2) by simp
  then obtain cs where cs: "permute cs ?rest = ys" using Cons.IH by blast
  obtain x xs' where x: "xs = x # xs'" using i(1) by (cases xs) auto
  have "permute (i # cs) xs = y # ys"
    using i cs unfolding x by (simp add: Let_def)
  then show ?case ..
qed

lemma set_permute: "set (permute cs xs) = set xs"
  by (metis mset_permute set_mset_mset)

lemma length_permute: "length (permute cs xs) = length xs"
  by (metis mset_permute size_mset)

lemma distinct_keys_permute: "distinct (map fst (permute cs xs)) = distinct (map fst xs)"
proof -
  have "mset (map fst (permute cs xs)) = mset (map fst xs)"
    using mset_permute [of cs xs] by (metis mset_map)
  then show ?thesis by (rule mset_eq_imp_distinct_iff)
qed

lemma set_range_map: "set (range_map w m) = set m"
  by (simp add: range_map_def set_permute)

lemma distinct_range_map: "distinct (map fst (range_map w m)) = distinct (map fst m)"
  by (simp add: range_map_def distinct_keys_permute)

lemma findName_search:
  "\<exists>c'\<ge>c. findName keys name c = renamed name c' \<and> renamed name c' \<notin> set keys \<and>
     (\<forall>j. c \<le> j \<and> j < c' \<longrightarrow> renamed name j \<in> set keys)"
proof (induction keys name c rule: findName.induct)
  case (1 keys name counter)
  show ?case
  proof (cases "renamed name counter \<in> set keys")
    case False
    then have "findName keys name counter = renamed name counter"
      by (subst findName.simps) (simp add: Let_def)
    with False show ?thesis by auto
  next
    case True
    then have eq: "findName keys name counter = findName keys name (counter + 1)"
      by (subst findName.simps) (simp add: Let_def)
    from 1 [OF refl True] obtain c' where c': "c' \<ge> counter + 1"
      "findName keys name (counter + 1) = renamed name c'" "renamed name c' \<notin> set keys"
      "\<forall>j. counter + 1 \<le> j \<and> j < c' \<longrightarrow> renamed name j \<in> set keys"
      by blast
    have "\<forall>j. counter \<le> j \<and> j < c' \<longrightarrow> renamed name j \<in> set keys"
    proof (intro allI impI)
      fix j assume "counter \<le> j \<and> j < c'"
      then show "renamed name j \<in> set keys"
        using c'(4) True by (cases "j = counter") auto
    qed
    with c' eq show ?thesis
      by (intro exI [of _ c']) auto
  qed
qed

lemma uniqueName_fresh: "uniqueName m name \<notin> set (map fst m)"
proof (cases "name \<in> set (map fst m)")
  case True
  obtain c' where "findName (map fst m) name 1 = renamed name c'"
    "renamed name c' \<notin> set (map fst m)"
    using findName_search [of 1 "map fst m" name] by blast
  with True show ?thesis by (simp add: uniqueName_def)
next
  case False
  then show ?thesis by (simp add: uniqueName_def)
qed

lemma update_fresh: "k \<notin> set (map fst m) \<Longrightarrow> AList.update k v m = m @ [(k, v)]"
  by (induction m) auto

lemma store_unique: "AList.update (uniqueName m name) v m = m @ [(uniqueName m name, v)]"
  by (rule update_fresh) (rule uniqueName_fresh)

lemma distinct_store_unique:
  "distinct (map fst m) \<Longrightarrow> distinct (map fst (AList.update (uniqueName m name) v m))"
  using uniqueName_fresh [of m name] by (simp add: store_unique)

subsection \<open>Every store appends one entry\<close>

lemma loadDirect_appends:
  "\<exists>added. loadDirect w cfgs proxies = proxies @ added \<and>
     map snd added =
       List.map_filter (\<lambda>cfg. map_option (\<lambda>proxy. newCProxy proxy cfg) (adapter_ParseProxy w cfg)) cfgs"
proof (induction cfgs arbitrary: proxies)
  case Nil
  then show ?case by (simp add: List.map_filter_simps)
next
  case (Cons cfg cfgs)
  show ?case
  proof (cases "adapter_ParseProxy w cfg")
    case None
    then show ?thesis using Cons [of proxies] by (simp add: List.map_filter_simps)
  next
    case (Some proxy)
    let ?e = "(uniqueName proxies (Name proxy), newCProxy proxy cfg)"
    obtain added where "loadDirect w cfgs (proxies @ [?e]) = (proxies @ [?e]) @ added"
      "map snd added =
       List.map_filter (\<lambda>cfg. map_option (\<lambda>proxy. newCProxy proxy cfg) (adapter_ParseProxy w cfg)) cfgs"
      using Cons [of "proxies @ [?e]"] by blast
    then show ?thesis using Some
      by (intro exI [of _ "?e # added"]) (simp add: store_unique List.map_filter_simps)
  qed
qed

lemma loadDirect_distinct:
  "distinct (map fst proxies) \<Longrightarrow> distinct (map fst (loadDirect w cfgs proxies))"
proof (induction cfgs arbitrary: proxies)
  case (Cons cfg cfgs)
  then show ?case
    by (cases "adapter_ParseProxy w cfg") (simp_all add: distinct_store_unique)
qed simp


lemma addProviderProxies_distinct:
  "distinct (map fst proxies) \<Longrightarrow>
   distinct (map fst (addProviderProxies name pdProxies ps proxies))"
proof (induction ps arbitrary: proxies)
  case (Cons proxy ps)
  then show ?case
    by (cases "map_of pdProxies (Name proxy)") (simp_all add: distinct_store_unique Let_def)
qed simp

lemma loadProvider_distinct:
  "distinct (map fst proxies) \<Longrightarrow> distinct (map fst (loadProvider w entry proxies))"
  by (auto simp: loadProvider_def addProviderProxies_distinct
      split: prod.splits option.splits any.splits fetched.splits)

lemma loadProviders_distinct:
  "distinct (map fst proxies) \<Longrightarrow> distinct (map fst (loadProviders w entries proxies))"
  by (induction entries arbitrary: proxies) (simp_all add: loadProvider_distinct)

lemma mergeProxy_stored:
  "mergeProxy w sc (k, p) allProxies = Inr allProxies' \<Longrightarrow>
   allProxies' = (case stored w sc p of
                    None \<Rightarrow> allProxies
                  | Some p' \<Rightarrow> allProxies @ [(uniqueName allProxies k, p')])"
  by (auto simp: mergeProxy_def stored_def store_unique split: if_splits sum.splits)


lemma mergeProxies_appends:
  "mergeProxies w sc entries allProxies = Inr allProxies' \<Longrightarrow>
   \<exists>added. allProxies' = allProxies @ added \<and>
     map snd added = List.map_filter (stored w sc) (map snd entries)"
proof (induction entries arbitrary: allProxies)
  case Nil
  then show ?case by (simp add: List.map_filter_simps)
next
  case (Cons entry entries)
  obtain k p where e: "entry = (k, p)" by (cases entry)
  from Cons.prems obtain mid where m: "mergeProxy w sc (k, p) allProxies = Inr mid"
    and r: "mergeProxies w sc entries mid = Inr allProxies'"
    by (auto simp: e split: sum.splits)
  from Cons.IH [OF r] obtain added where a: "allProxies' = mid @ added"
    "map snd added = List.map_filter (stored w sc) (map snd entries)" by blast
  show ?case
  proof (cases "stored w sc p")
    case None
    then have "mid = allProxies" using mergeProxy_stored [OF m] by simp
    then show ?thesis using a None e by (simp add: List.map_filter_simps)
  next
    case (Some p')
    then have "mid = allProxies @ [(uniqueName allProxies k, p')]"
      using mergeProxy_stored [OF m] by simp
    then show ?thesis using a Some e
      by (intro exI [of _ "(uniqueName allProxies k, p') # added"]) (simp add: List.map_filter_simps)
  qed
qed




subsection \<open>The name filters\<close>

text \<open>
  \<open>Split\<close> cuts at every separator: the parts hold no separator, and joined with the
  separator they give the string back.
\<close>

lemma Split_not_Nil: "Split s sep \<noteq> []"
  by (induction s) (auto split: list.splits)

lemma Split_join: "concat (map (\<lambda>part. part @ [sep]) (Split s sep)) = s @ [sep]"
proof (induction s)
  case Nil
  then show ?case by simp
next
  case (Cons c cs)
  then show ?case
    using Split_not_Nil [of cs sep] by (auto split: list.splits)
qed

lemma Split_no_sep: "part \<in> set (Split s sep) \<Longrightarrow> sep \<notin> set part"
proof (induction s arbitrary: part)
  case Nil
  then show ?case by simp
next
  case (Cons c cs)
  then show ?case
    by (auto split: if_splits list.splits)
qed

text \<open>\<open>HasPrefix\<close> and \<open>Contains\<close> are the prefix and the substring relation.\<close>

lemma HasPrefix_iff: "HasPrefix s pre \<longleftrightarrow> (\<exists>post. s = pre @ post)"
proof
  assume "HasPrefix s pre"
  then have "s = pre @ drop (length pre) s"
    by (metis HasPrefix_def append_take_drop_id)
  then show "\<exists>post. s = pre @ post" ..
next
  assume "\<exists>post. s = pre @ post"
  then show "HasPrefix s pre" by (auto simp: HasPrefix_def)
qed

lemma Contains_iff: "Contains s substr \<longleftrightarrow> (\<exists>pre post. s = pre @ substr @ post)"
proof (induction s)
  case Nil
  then show ?case by auto
next
  case (Cons c cs)
  show ?case
  proof
    assume "Contains (c # cs) substr"
    then consider "HasPrefix (c # cs) substr" | "Contains cs substr" by auto
    then show "\<exists>pre post. c # cs = pre @ substr @ post"
    proof cases
      case 1
      then obtain post where "c # cs = [] @ substr @ post" by (auto simp: HasPrefix_iff)
      then show ?thesis by blast
    next
      case 2
      then obtain pre post where "cs = pre @ substr @ post" using Cons by blast
      then have "c # cs = (c # pre) @ substr @ post" by simp
      then show ?thesis by blast
    qed
  next
    assume "\<exists>pre post. c # cs = pre @ substr @ post"
    then obtain pre post where e: "c # cs = pre @ substr @ post" by blast
    show "Contains (c # cs) substr"
    proof (cases pre)
      case Nil
      then have "HasPrefix (c # cs) substr" using e by (auto simp: HasPrefix_iff)
      then show ?thesis by simp
    next
      case (Cons a pre')
      then have "cs = pre' @ substr @ post" using e by simp
      then have "Contains cs substr" using Cons.IH by blast
      then show ?thesis by simp
    qed
  qed
qed

lemma keys_update: "fst ` set (AList.update k v al) = insert k (fst ` set al)"
  by (simp add: dom_update)

lemma entries_update: "set (AList.update k v al) \<subseteq> insert (k, v) (set al)"
  by (induction al) auto

lemma filterNames_keys:
  "filterNames w ms kws entries (f, b, n) = (f', b', n') \<Longrightarrow>
   set (map fst f') =
     set (map fst f) \<union> {name \<in> set (map fst entries). \<not> shouldBlock w kws name \<and> ms name}"
proof (induction entries arbitrary: f b n)
  case Nil
  then show ?case by simp
next
  case (Cons e entries)
  obtain name p where e: "e = (name, p)" by (cases e)
  show ?case
  proof (cases "shouldBlock w kws name")
    case True
    then show ?thesis using Cons.prems Cons.IH [of f "b @ [name]" "n + 1"] e by auto
  next
    case False
    show ?thesis
    proof (cases "ms name")
      case True
      then show ?thesis
        using Cons.prems Cons.IH [of "AList.update name p f" b n] e False
        by (auto simp: keys_update)
    next
      case no: False
      then show ?thesis using Cons.prems Cons.IH [of f b n] e False by auto
    qed
  qed
qed

lemma filterNames_entries:
  "filterNames w ms kws entries (f, b, n) = (f', b', n') \<Longrightarrow> set f' \<subseteq> set f \<union> set entries"
proof (induction entries arbitrary: f b n)
  case Nil
  then show ?case by simp
next
  case (Cons e entries)
  obtain name p where e: "e = (name, p)" by (cases e)
  have u: "set (AList.update name p f) \<subseteq> insert (name, p) (set f)" by (rule entries_update)
  show ?case
    using Cons.prems e u
      Cons.IH [of f "b @ [name]" "n + 1"] Cons.IH [of "AList.update name p f" b n] Cons.IH [of f b n]
    by (auto split: if_splits)
qed


lemma filterNames_blocked:
  "filterNames w ms kws entries (f, b, n) = (f', b', n') \<Longrightarrow>
   b' = b @ filter (shouldBlock w kws) (map fst entries) \<and>
   n' = n + int (length (filter (shouldBlock w kws) (map fst entries)))"
proof (induction entries arbitrary: f b n)
  case Nil
  then show ?case by simp
next
  case (Cons e entries)
  obtain name p where e: "e = (name, p)" by (cases e)
  show ?case
    using Cons.prems e
      Cons.IH [of f "b @ [name]" "n + 1"] Cons.IH [of "AList.update name p f" b n] Cons.IH [of f b n]
    by (auto split: if_splits)
qed

lemma shouldBlock_iff:
  "shouldBlock w (blockKeywordsOf w blockRegex) name \<longleftrightarrow>
     blockRegex \<noteq> [] \<and>
     (\<exists>k \<in> set (Split blockRegex (CHR ''|'')).
        strings_TrimSpace w k \<noteq> [] \<and>
        Contains (strings_ToLower w name) (strings_ToLower w (strings_TrimSpace w k)))"
  by (auto simp: shouldBlock_def blockKeywordsOf_def list_ex_iff filter_empty_conv)

lemma LoadProxies_returns:
  assumes "loadConfigs w sc (Split (ConfigPaths (config st)) (CHR '','')) [] = Inr allProxies"
    and "regexp_Compile w (FilterRegex (config st)) = Some ms"
    and "filterNames w ms (blockKeywordsOf w (BlockRegex (config st))) (range_map w allProxies)
           ([], [], 0) = (f, b, n)"
  shows "LoadProxies w st sc =
           Inr (st\<lparr>blockedNodes := b, blockedNodeCount := n\<rparr>,
                if f = [] then Inl NoValidProxiesLoaded else Inr f)"
  using assms by (simp add: LoadProxies_def)

subsection \<open>Unique names\<close>

lemma LoadProxies_InrD:
  assumes "LoadProxies w st sc = Inr (st', res)"
  obtains allProxies ms f b n where
    "loadConfigs w sc (Split (ConfigPaths (config st)) (CHR '','')) [] = Inr allProxies"
    "regexp_Compile w (FilterRegex (config st)) = Some ms"
    "filterNames w ms (blockKeywordsOf w (BlockRegex (config st))) (range_map w allProxies)
           ([], [], 0) = (f, b, n)"
    "res = (if f = [] then Inl NoValidProxiesLoaded else Inr f)"
    "st' = st\<lparr>blockedNodes := b, blockedNodeCount := n\<rparr>"
  using assms
  by (auto simp: LoadProxies_def split: sum.splits option.splits prod.splits if_splits)



lemma store_each_nth:
  "\<exists>added. store_each cands m = m @ added \<and> length added = length cands \<and>
     (\<forall>i<length cands.
        added ! i = (uniqueName (m @ take i added) (fst (cands ! i)), snd (cands ! i)))"
proof (induction cands arbitrary: m)
  case Nil
  then show ?case by simp
next
  case (Cons c cands)
  obtain name v where c: "c = (name, v)" by (cases c)
  let ?e = "(uniqueName m name, v)"
  obtain added where a: "store_each cands (m @ [?e]) = (m @ [?e]) @ added"
    "length added = length cands"
    "\<forall>i<length cands.
        added ! i = (uniqueName ((m @ [?e]) @ take i added) (fst (cands ! i)), snd (cands ! i))"
    using Cons [of "m @ [?e]"] by blast
  have "\<forall>i<length (c # cands).
        (?e # added) ! i =
          (uniqueName (m @ take i (?e # added)) (fst ((c # cands) ! i)), snd ((c # cands) ! i))"
  proof (intro allI impI)
    fix i assume i: "i < length (c # cands)"
    show "(?e # added) ! i =
          (uniqueName (m @ take i (?e # added)) (fst ((c # cands) ! i)), snd ((c # cands) ! i))"
    proof (cases i)
      case 0
      then show ?thesis by (simp add: c)
    next
      case (Suc j)
      then have "j < length cands" using i by simp
      then show ?thesis using a(3) Suc by simp
    qed
  qed
  then show ?case
    using a(1,2) c by (intro exI [of _ "?e # added"]) simp
qed




lemma store_each_appends: "\<exists>added. store_each cands m = m @ added"
  using store_each_nth [of cands m] by blast








subsection \<open>Filters, panics and the compatibility check\<close>

text \<open>
  Claim C6. When the sources load into \<open>allProxies\<close> and \<open>FilterRegex\<close> compiles,
  \<open>LoadProxies\<close> returns, and a name is a key of the returned map exactly when it is a
  key of \<open>allProxies\<close>, is not blocked and matches the allow pattern; so a blocked name
  is excluded whether or not it matches. The entries returned are entries of
  \<open>allProxies\<close>, and the blocked names are recorded in \<open>blockedNodes\<close>. A name is
  blocked exactly when \<open>BlockRegex\<close> is not empty and the lower-cased name contains the
  lower-cased form of one of the non-empty trimmed pieces of \<open>BlockRegex\<close> split at
  \<open>|\<close>.
\<close>

theorem name_filters:
  assumes "loadConfigs w sc (Split (ConfigPaths (config st)) (CHR '','')) [] = Inr allProxies"
    and "regexp_Compile w (FilterRegex (config st)) = Some matchString"
  shows "\<exists>st' res. LoadProxies w st sc = Inr (st', res) \<and>
     (\<forall>name. name \<in> set (map fst (returned_map res)) \<longleftrightarrow>
        name \<in> set (map fst allProxies) \<and>
        \<not> shouldBlock w (blockKeywordsOf w (BlockRegex (config st))) name \<and>
        matchString name) \<and>
     set (returned_map res) \<subseteq> set allProxies \<and>
     set (blockedNodes st') =
       {name \<in> set (map fst allProxies).
          shouldBlock w (blockKeywordsOf w (BlockRegex (config st))) name} \<and>
     (\<forall>name. shouldBlock w (blockKeywordsOf w (BlockRegex (config st))) name \<longleftrightarrow>
        BlockRegex (config st) \<noteq> [] \<and>
        (\<exists>k \<in> set (Split (BlockRegex (config st)) (CHR ''|'')).
           strings_TrimSpace w k \<noteq> [] \<and>
           (\<exists>pre post. strings_ToLower w name =
              pre @ strings_ToLower w (strings_TrimSpace w k) @ post)))"
proof -
  let ?kws = "blockKeywordsOf w (BlockRegex (config st))"
  obtain f b n where fn: "filterNames w matchString ?kws (range_map w allProxies) ([], [], 0) = (f, b, n)"
    by (cases "filterNames w matchString ?kws (range_map w allProxies) ([], [], 0)")
  let ?res = "if f = [] then Inl NoValidProxiesLoaded else Inr f"
  have rm: "returned_map ?res = f" by simp
  have ret: "LoadProxies w st sc = Inr (st\<lparr>blockedNodes := b, blockedNodeCount := n\<rparr>, ?res)"
    using assms fn by (rule LoadProxies_returns)
  have keys: "set (map fst f) =
      {name \<in> set (map fst allProxies). \<not> shouldBlock w ?kws name \<and> matchString name}"
    using filterNames_keys [OF fn] by (simp add: set_range_map)
  have sub: "set f \<subseteq> set allProxies"
    using filterNames_entries [OF fn] by (simp add: set_range_map)
  have bl: "set b = {name \<in> set (map fst allProxies). shouldBlock w ?kws name}"
    using filterNames_blocked [OF fn] by (auto simp: set_range_map)
  have sb: "\<forall>name. shouldBlock w ?kws name \<longleftrightarrow>
        BlockRegex (config st) \<noteq> [] \<and>
        (\<exists>k \<in> set (Split (BlockRegex (config st)) (CHR ''|'')).
           strings_TrimSpace w k \<noteq> [] \<and>
           (\<exists>pre post. strings_ToLower w name =
              pre @ strings_ToLower w (strings_TrimSpace w k) @ post))"
    by (simp add: shouldBlock_iff Contains_iff)
  show ?thesis
    apply (rule exI [of _ "st\<lparr>blockedNodes := b, blockedNodeCount := n\<rparr>"])
    apply (rule exI [of _ ?res])
    unfolding rm
    using ret keys sub bl sb by auto
qed

text \<open>
  Claim C9. When \<open>FilterRegex\<close> does not compile, \<open>LoadProxies\<close> ends in a panic and
  returns neither an error value nor a registry; once the sources have been loaded,
  the panic is the one of \<open>regexp.MustCompile\<close>. So whenever \<open>LoadProxies\<close> returns,
  with the error or with a registry, \<open>FilterRegex\<close> compiles.
\<close>

theorem invalid_filter_regex_panics:
  "(regexp_Compile w (FilterRegex (config st)) = None \<longrightarrow>
      (\<exists>e. LoadProxies w st sc = Inl e) \<and>
      (loadConfigs w sc (Split (ConfigPaths (config st)) (CHR '','')) [] = Inr allProxies \<longrightarrow>
         LoadProxies w st sc = Inl RegexpMustCompile)) \<and>
   (LoadProxies w st sc = Inr r \<longrightarrow>
      (\<exists>matchString. regexp_Compile w (FilterRegex (config st)) = Some matchString))"
  by (auto simp: LoadProxies_def split: sum.splits option.splits prod.splits if_splits)

lemma fixServer_Type: "fixServer w p = Inr p' \<Longrightarrow> Type p' = Type p"
  by (auto simp: fixServer_def split: option.splits any.splits)

lemma isStashCompatible_Type:
  "isStashCompatible p \<Longrightarrow> Type p \<noteq> Mieru \<and> Type p \<noteq> AnyTLS"
  by (auto simp: isStashCompatible_def)

lemma stored_stash_Type:
  "stored w True p = Some p' \<Longrightarrow> Type p' \<noteq> Mieru \<and> Type p' \<noteq> AnyTLS"
  by (auto simp: stored_def isStashCompatible_Type split: if_splits sum.splits)

lemma map_filter_set: "set (List.map_filter f xs) = {y. \<exists>x \<in> set xs. f x = Some y}"
  by (induction xs) (auto simp: List.map_filter_simps split: option.splits)

lemma mergeProxies_stash:
  assumes "mergeProxies w True entries allProxies = Inr allProxies'"
    and "\<forall>e \<in> set allProxies. Type (snd e) \<noteq> Mieru \<and> Type (snd e) \<noteq> AnyTLS"
  shows "\<forall>e \<in> set allProxies'. Type (snd e) \<noteq> Mieru \<and> Type (snd e) \<noteq> AnyTLS"
proof -
  obtain added where a: "allProxies' = allProxies @ added"
    "map snd added = List.map_filter (stored w True) (map snd entries)"
    using mergeProxies_appends [OF assms(1)] by blast
  have "\<forall>q \<in> set (map snd added). Type q \<noteq> Mieru \<and> Type q \<noteq> AnyTLS"
    unfolding a(2) map_filter_set using stored_stash_Type by blast
  then show ?thesis using a(1) assms(2) by auto
qed

lemma loadConfig_stash:
  assumes "loadConfig w True path allProxies = Inr allProxies'"
    and "\<forall>e \<in> set allProxies. Type (snd e) \<noteq> Mieru \<and> Type (snd e) \<noteq> AnyTLS"
  shows "\<forall>e \<in> set allProxies'. Type (snd e) \<noteq> Mieru \<and> Type (snd e) \<noteq> AnyTLS"
  using assms
  by (auto simp: loadConfig_def Let_def split: if_splits option.splits dest!: mergeProxies_stash)

lemma loadConfigs_stash:
  assumes "loadConfigs w True paths allProxies = Inr allProxies'"
    and "\<forall>e \<in> set allProxies. Type (snd e) \<noteq> Mieru \<and> Type (snd e) \<noteq> AnyTLS"
  shows "\<forall>e \<in> set allProxies'. Type (snd e) \<noteq> Mieru \<and> Type (snd e) \<noteq> AnyTLS"
  using assms
proof (induction paths arbitrary: allProxies)
  case Nil
  then show ?case by simp
next
  case (Cons path paths)
  from Cons.prems(1) obtain mid where m: "loadConfig w True path allProxies = Inr mid"
    and r: "loadConfigs w True paths mid = Inr allProxies'"
    by (auto split: sum.splits)
  show ?case
    using Cons.IH [OF r] loadConfig_stash [OF m Cons.prems(2)] by blast
qed

text \<open>
  Claim C10. A proxy of type Mieru or AnyTLS passes the supported-type switch and
  fails \<open>isStashCompatible\<close> whatever its configuration holds (the empty configuration
  included): with the compatibility filter on, the merge loop leaves the registry as it
  was, and with the filter off it stores the proxy. No registry that \<open>LoadProxies\<close>
  returns under the compatibility filter holds a proxy of either type.
\<close>

theorem stash_excludes_mieru_anytls:
  "(Type p = Mieru \<or> Type p = AnyTLS \<longrightarrow>
      supportedType (Type p) \<and> \<not> isStashCompatible p \<and>
      (fixServer w p = Inr p' \<longrightarrow>
         mergeProxy w True (k, p) allProxies = Inr allProxies \<and>
         mergeProxy w False (k, p) allProxies = Inr (allProxies @ [(uniqueName allProxies k, p')]))) \<and>
   (LoadProxies w st True = Inr (st', Inr reg) \<longrightarrow>
      (\<forall>e \<in> set reg. Type (snd e) \<noteq> Mieru \<and> Type (snd e) \<noteq> AnyTLS))"
proof (intro conjI impI)
  assume t: "Type p = Mieru \<or> Type p = AnyTLS"
  show s: "supportedType (Type p)" using t by (auto simp: supportedType_def)
  show "\<not> isStashCompatible p" using t isStashCompatible_Type by blast
  assume f: "fixServer w p = Inr p'"
  have "\<not> isStashCompatible p'"
    using t fixServer_Type [OF f] isStashCompatible_Type [of p'] by auto
  then show "mergeProxy w True (k, p) allProxies = Inr allProxies"
    using s f by (simp add: mergeProxy_def)
  show "mergeProxy w False (k, p) allProxies = Inr (allProxies @ [(uniqueName allProxies k, p')])"
    using s f by (simp add: mergeProxy_def store_unique)
next
  assume a: "LoadProxies w st True = Inr (st', Inr reg)"
  from a obtain allProxies ms f b n where
    lc: "loadConfigs w True (Split (ConfigPaths (config st)) (CHR '','')) [] = Inr allProxies"
    and fn: "filterNames w ms (blockKeywordsOf w (BlockRegex (config st))) (range_map w allProxies)
           ([], [], 0) = (f, b, n)"
    and r: "Inr reg = (if f = [] then Inl NoValidProxiesLoaded else Inr f)"
    by (rule LoadProxies_InrD)
  have "reg = f" using r by (auto split: if_splits)
  then have "set reg \<subseteq> set allProxies"
    using filterNames_entries [OF fn] by (simp add: set_range_map)
  moreover have "\<forall>e \<in> set allProxies. Type (snd e) \<noteq> Mieru \<and> Type (snd e) \<noteq> AnyTLS"
    using loadConfigs_stash [OF lc] by simp
  ultimately show "\<forall>e \<in> set reg. Type (snd e) \<noteq> Mieru \<and> Type (snd e) \<noteq> AnyTLS"
    by blast
qed

subsection \<open>The example load\<close>

lemma example_loadConfigs:
  "loadConfigs example_world False (Split (ConfigPaths (config example_tester)) (CHR '','')) []
     = Inr example_merged"
  by code_simp

lemma example_LoadProxies:
  "LoadProxies example_world example_tester False =
     Inr (example_tester\<lparr>blockedNodes := [''jp-01''], blockedNodeCount := 1\<rparr>, Inr example_filtered)"
  by code_simp

lemma example_LoadProxies_stash:
  "LoadProxies example_world example_tester True =
     Inr (example_tester\<lparr>blockedNodes := [], blockedNodeCount := 0\<rparr>, Inr example_filtered_stash)"
  by code_simp



lemma broken_LoadProxies:
  "LoadProxies example_world broken_tester False = Inl RegexpMustCompile"
  by code_simp







lemma example_Compile_hk:
  "regexp_Compile example_world (FilterRegex (config example_tester)) = Some (\<lambda>s. Contains s ''hk'')"
  by (simp add: example_world_def example_tester_def New_def example_config_def example_Compile_def)

lemma example_blocked:
  "shouldBlock example_world (blockKeywordsOf example_world (BlockRegex (config example_tester))) ''jp-01''"
  by code_simp

text \<open>
  In the example load the block keyword is \<open>jp\<close> (from \<open>JP | \<close>) and the allow pattern
  \<open>hk\<close>: \<open>jp-01\<close> is blocked, \<open>us-01\<close> does not match, and the four names with \<open>hk\<close>
  are returned.
\<close>

theorem name_filters_witness:
  "LoadProxies example_world example_tester False =
     Inr (example_tester\<lparr>blockedNodes := [''jp-01''], blockedNodeCount := 1\<rparr>, Inr example_filtered) \<and>
   (\<forall>name. name \<in> set (map fst example_filtered) \<longleftrightarrow>
      name \<in> set (map fst example_merged) \<and>
      \<not> shouldBlock example_world
           (blockKeywordsOf example_world (BlockRegex (config example_tester))) name \<and>
      Contains name ''hk'') \<and>
   set example_filtered \<subseteq> set example_merged \<and>
   ''jp-01'' \<in> set (map fst example_merged) \<and>
   shouldBlock example_world (blockKeywordsOf example_world (BlockRegex (config example_tester))) ''jp-01'' \<and>
   ''jp-01'' \<notin> set (map fst example_filtered)"
proof -
  from name_filters [OF example_loadConfigs example_Compile_hk]
  obtain st' res where r: "LoadProxies example_world example_tester False = Inr (st', res)"
    and k: "\<forall>name. name \<in> set (map fst (returned_map res)) \<longleftrightarrow>
        name \<in> set (map fst example_merged) \<and>
        \<not> shouldBlock example_world
             (blockKeywordsOf example_world (BlockRegex (config example_tester))) name \<and>
        Contains name ''hk''"
    and s: "set (returned_map res) \<subseteq> set example_merged"
    by blast
  have "res = Inr example_filtered" using r example_LoadProxies by simp
  then have rm: "returned_map res = example_filtered" by simp
  have j: "''jp-01'' \<in> set (map fst example_merged)" by code_simp
  have "''jp-01'' \<notin> set (map fst example_filtered)"
    using k example_blocked unfolding rm by blast
  then show ?thesis
    using example_LoadProxies k s j example_blocked unfolding rm by blast
qed

text \<open>
  The pattern \<open>(\<close> does not compile: the load of the two files ends in the panic of
  \<open>regexp.MustCompile\<close>; the example load, which returns, has a pattern that compiles.
\<close>

lemma broken_loadConfigs:
  "loadConfigs example_world False (Split (ConfigPaths (config broken_tester)) (CHR '','')) []
     = Inr example_merged"
  by code_simp

theorem invalid_filter_regex_panics_witness:
  "regexp_Compile example_world (FilterRegex (config broken_tester)) = None \<and>
   LoadProxies example_world broken_tester False = Inl RegexpMustCompile \<and>
   (\<exists>matchString. regexp_Compile example_world (FilterRegex (config example_tester)) = Some matchString)"
proof -
  have n: "regexp_Compile example_world (FilterRegex (config broken_tester)) = None"
    by (simp add: example_world_def broken_tester_def New_def example_config_def example_Compile_def)
  have "LoadProxies example_world broken_tester False = Inl RegexpMustCompile"
    using invalid_filter_regex_panics [of example_world broken_tester False example_merged]
      n broken_loadConfigs by blast
  moreover have "\<exists>matchString. regexp_Compile example_world (FilterRegex (config example_tester)) = Some matchString"
    using invalid_filter_regex_panics [of example_world example_tester False _ "(example_tester\<lparr>blockedNodes := [''jp-01''], blockedNodeCount := 1\<rparr>, Inr example_filtered)"]
      example_LoadProxies by blast
  ultimately show ?thesis using n by blast
qed

text \<open>
  The AnyTLS proxy \<open>us-01\<close> of the example has no parameter that the compatibility
  check reads; under the filter the merge loop skips it and the returned registry holds
  a Trojan, a Shadowsocks and a Vmess proxy, while without the filter it is stored.
\<close>

theorem stash_excludes_mieru_anytls_witness:
  "Type (newCProxy \<lparr>Name = ''us-01'', Type = AnyTLS\<rparr> anytls_us) = AnyTLS \<and>
   supportedType AnyTLS \<and>
   \<not> isStashCompatible (newCProxy \<lparr>Name = ''us-01'', Type = AnyTLS\<rparr> anytls_us) \<and>
   mergeProxy example_world True (''us-01'', newCProxy \<lparr>Name = ''us-01'', Type = AnyTLS\<rparr> anytls_us)
       example_after_a = Inr example_after_a \<and>
   mergeProxy example_world False (''us-01'', newCProxy \<lparr>Name = ''us-01'', Type = AnyTLS\<rparr> anytls_us)
       example_after_a =
     Inr (example_after_a @ [(''us-01'', newCProxy \<lparr>Name = ''us-01'', Type = AnyTLS\<rparr> anytls_us)]) \<and>
   LoadProxies example_world example_tester True =
     Inr (example_tester\<lparr>blockedNodes := [], blockedNodeCount := 0\<rparr>, Inr example_filtered_stash) \<and>
   map (Type \<circ> snd) example_filtered_stash = [Trojan, Shadowsocks, Vmess]"
proof -
  let ?p = "newCProxy \<lparr>Name = ''us-01'', Type = AnyTLS\<rparr> anytls_us"
  have t: "Type ?p = Mieru \<or> Type ?p = AnyTLS" by (simp add: newCProxy_def)
  have f: "fixServer example_world ?p = Inr ?p"
    by (simp add: fixServer_def newCProxy_def anytls_us_def)
  have u: "uniqueName example_after_a ''us-01'' = ''us-01''" by code_simp
  note th = stash_excludes_mieru_anytls [where p = ?p and p' = ?p and w = example_world
      and k = "''us-01''" and allProxies = example_after_a and st = example_tester
      and st' = "example_tester\<lparr>blockedNodes := [], blockedNodeCount := 0\<rparr>"
      and reg = example_filtered_stash]
  have a: "supportedType (Type ?p) \<and> \<not> isStashCompatible ?p \<and>
      mergeProxy example_world True (''us-01'', ?p) example_after_a = Inr example_after_a \<and>
      mergeProxy example_world False (''us-01'', ?p) example_after_a =
        Inr (example_after_a @ [(uniqueName example_after_a ''us-01'', ?p)])"
    using th t f by blast
  have b: "\<forall>e \<in> set example_filtered_stash. Type (snd e) \<noteq> Mieru \<and> Type (snd e) \<noteq> AnyTLS"
    using th example_LoadProxies_stash by blast
  have m: "map (Type \<circ> snd) example_filtered_stash = [Trojan, Shadowsocks, Vmess]"
    by (simp add: example_filtered_stash_def newCProxy_def)
  show ?thesis
    using a m example_LoadProxies_stash by (simp add: u newCProxy_def)
qed

subsection \<open>Failures of a source, and the error of an empty registry\<close>

text \<open>
  A source that cannot be fetched or decoded is skipped: the registry is as before and
  the load goes on with the next path. The same holds for a provider.
\<close>

lemma loadConfig_skips_failed_source:
  assumes "fetchConfig w (strings_TrimSpace w path) = None \<or>
           (\<exists>body. fetchConfig w (strings_TrimSpace w path) = Some body \<and> yaml_Unmarshal w body = None)"
  shows "loadConfig w sc path allProxies = Inr allProxies"
    and "loadConfigs w sc (path # paths) allProxies = loadConfigs w sc paths allProxies"
proof -
  show "loadConfig w sc path allProxies = Inr allProxies"
    using assms by (auto simp: loadConfig_def Let_def)
  then show "loadConfigs w sc (path # paths) allProxies = loadConfigs w sc paths allProxies"
    by simp
qed

lemma fetchConfig_failures:
  "HasPrefix p ''http'' \<Longrightarrow> http_Get w p \<in> {GetError, ReadError} \<Longrightarrow> fetchConfig w p = None"
  "\<not> HasPrefix p ''http'' \<Longrightarrow> os_ReadFile w p = None \<Longrightarrow> fetchConfig w p = None"
  by (auto simp: fetchConfig_def)

lemma loadProvider_skips_failed_provider:
  assumes "provider_ParseProxyProvider w name cfg = None \<or>
           (\<exists>pd. provider_ParseProxyProvider w name cfg = Some pd \<and> \<not> InitialOk pd) \<or>
           (\<exists>url. map_of cfg ''url'' = Some (AString url) \<and>
              (http_Get w url \<in> {GetError, ReadError} \<or>
               (\<exists>body. http_Get w url = Body body \<and> yaml_Unmarshal w body = None)))"
  shows "loadProvider w (name, cfg) proxies = proxies"
  using assms
  by (auto simp: loadProvider_def split: option.splits any.splits fetched.splits)

text \<open>
  When the merge loop does not panic and the pattern compiles, \<open>LoadProxies\<close> returns
  the error exactly when no name of the registry passes the filters, and a non-empty
  registry otherwise.
\<close>

lemma LoadProxies_error_iff:
  assumes "loadConfigs w sc (Split (ConfigPaths (config st)) (CHR '','')) [] = Inr allProxies"
    and "regexp_Compile w (FilterRegex (config st)) = Some matchString"
  shows "\<exists>st' res. LoadProxies w st sc = Inr (st', res) \<and>
     (res = Inl NoValidProxiesLoaded \<longleftrightarrow>
        {name \<in> set (map fst allProxies).
           \<not> shouldBlock w (blockKeywordsOf w (BlockRegex (config st))) name \<and> matchString name} = {}) \<and>
     (\<forall>reg. res = Inr reg \<longrightarrow> reg \<noteq> [])"
proof -
  let ?kws = "blockKeywordsOf w (BlockRegex (config st))"
  obtain f b n where fn: "filterNames w matchString ?kws (range_map w allProxies) ([], [], 0) = (f, b, n)"
    by (cases "filterNames w matchString ?kws (range_map w allProxies) ([], [], 0)")
  let ?res = "if f = [] then Inl NoValidProxiesLoaded else Inr f"
  have ret: "LoadProxies w st sc = Inr (st\<lparr>blockedNodes := b, blockedNodeCount := n\<rparr>, ?res)"
    using assms fn by (rule LoadProxies_returns)
  have keys: "set (map fst f) =
      {name \<in> set (map fst allProxies). \<not> shouldBlock w ?kws name \<and> matchString name}"
    using filterNames_keys [OF fn] by (simp add: set_range_map)
  have "(f = []) \<longleftrightarrow> set (map fst f) = {}" by simp
  then have e: "(?res = Inl NoValidProxiesLoaded) \<longleftrightarrow>
      {name \<in> set (map fst allProxies). \<not> shouldBlock w ?kws name \<and> matchString name} = {}"
    unfolding keys by simp
  have "\<forall>reg. ?res = Inr reg \<longrightarrow> reg \<noteq> []" by simp
  with ret e show ?thesis by blast
qed

text \<open>
  The merge loop panics on every supported proxy whose \<open>server\<close> parameter is present
  and not a string, whatever else the load holds.
\<close>

lemma mergeProxy_server_panics:
  assumes "supportedType (Type p)" and "map_of (Config p) ''server'' = Some v"
    and "\<forall>s. v \<noteq> AString s"
  shows "mergeProxy w sc (k, p) allProxies = Inl InterfaceConversion"
  using assms by (cases v) (simp_all add: mergeProxy_def fixServer_def)

text \<open>
  Claim C5, at an input on which the code departs from it. The file \<open>a.yaml\<close> declares
  two Shadowsocks proxies, each with name, server, port, cipher and password, which the
  parser accepts; the second has the number 2130706433 for its \<open>server\<close>. The allow
  pattern \<open>.+\<close> compiles, and the same file without the second entry loads into the
  registry that holds \<open>hk-01\<close>. With the second entry \<open>LoadProxies\<close> returns neither a
  registry nor the error: the unchecked type assertion \<open>server.(string)\<close> panics in the
  merge loop.
\<close>

theorem numeric_server_panics:
  "map_option Type (adapter_ParseProxy numeric_world ss_hk_complete) = Some Shadowsocks \<and>
   map_option Type (adapter_ParseProxy numeric_world ss_numeric_server) = Some Shadowsocks \<and>
   map_of ss_numeric_server ''server'' = Some (AInt 2130706433) \<and>
   regexp_Compile numeric_world (FilterRegex (config numeric_tester)) \<noteq> None \<and>
   LoadProxies control_world numeric_tester False =
     Inr (numeric_tester\<lparr>blockedNodes := [], blockedNodeCount := 0\<rparr>,
          Inr [(''hk-01'', \<lparr>Name = ''hk-01'', Type = Shadowsocks, Config = ss_hk_complete\<rparr>)]) \<and>
   LoadProxies numeric_world numeric_tester False = Inl InterfaceConversion"
  by code_simp

end
